theory Spec2Isabelle
  imports Complex_Main "HOL-Library.AList"
begin

section \<open>Numbers\<close>

text \<open>
  The TypeScript sources compute with \<open>number\<close>. The embedding takes numbers as
  rationals: every catalog value is an integer, and the scale factors of the source
  (0.45, 2.5, 0.5, 1.2, 0.3, 0.1, 0.4, 0.6) are written as the fractions they denote. The
  rules of stat derivation, damage and arming and the geometry of the deploy zones are
  stated over the exact values. The fast-forward resolver accumulates the time, the
  positions and the hit points over the turns of its loop, where the rounding errors of
  binary64 add up; each addition, subtraction, multiplication and division of
  \<open>simulateBattle.ts\<close> is rounded as the source rounds it, by \<open>bin64\<close> below (the damage
  of a hit is the exact rule, applied to the whole numbers of the catalog). Identifiers
  and the sizes of deployed packs are natural numbers; the counts of a resolver
  configuration are numbers, as the source takes them.
\<close>

type_synonym number = rat

section \<open>Rounding to binary64\<close>

text \<open>
  The number of binary digits of a positive integer, and \<open>2\<close> to an integer power.
\<close>

function bitLength :: "int \<Rightarrow> nat" where
  "bitLength n = (if n \<le> 0 then 0 else Suc (bitLength (n div 2)))"
  by pat_completeness auto

termination
  by (relation "measure nat") auto

declare bitLength.simps [simp del]

definition pow2 :: "int \<Rightarrow> number" where
  "pow2 k = (if 0 \<le> k then 2 ^ nat k else 1 / 2 ^ nat (- k))"

text \<open>
  The binary exponent of a number \<open>v \<noteq> 0\<close>: the integer \<open>e\<close> with
  \<open>2 ^ e \<le> |v| < 2 ^ (e + 1)\<close>. For \<open>|v| = p / q\<close> it is the difference of the bit lengths
  of \<open>p\<close> and \<open>q\<close>, or one less.
\<close>

definition binExponent :: "number \<Rightarrow> int" where
  "binExponent v =
     (let (p, q) = quotient_of \<bar>v\<bar>;
          k = int (bitLength p) - int (bitLength q)
      in if pow2 k \<le> \<bar>v\<bar> then k else k - 1)"

text \<open>The nearest integer, a half rounded to the even neighbour.\<close>

definition roundHalfEven :: "number \<Rightarrow> int" where
  "roundHalfEven v =
     (let f = \<lfloor>v\<rfloor>; r = v - of_int f
      in if r < 1 / 2 then f else if 1 / 2 < r then f + 1 else if even f then f else f + 1)"

text \<open>
  The binary64 number nearest to \<open>v\<close>, ties to even: \<open>v\<close> is rounded to a multiple of the
  unit in the last of the 53 places of its significand, \<open>2 ^ (e - 52)\<close>, where the exponent
  \<open>e\<close> is at least \<open>-1022\<close> (below it the numbers are subnormal, multiples of
  \<open>2 ^ -1074\<close>). The overflow to \<open>Infinity\<close> from \<open>2 ^ 1024\<close> on is not modelled.
\<close>

definition bin64 :: "number \<Rightarrow> number" where
  "bin64 v =
     (if v = 0 then 0
      else
        (let e = max (binExponent v) (- 1022);
             ulp = pow2 (e - 52)
         in of_int (roundHalfEven (v / ulp)) * ulp))"

section \<open>Rounding to an integer, clamping, truthiness\<close>

text \<open>\<open>Math.round\<close>: the nearest integer, a half rounded towards plus infinity.\<close>

definition Math_round :: "number \<Rightarrow> number" where
  "Math_round v = of_int \<lfloor>v + 1 / 2\<rfloor>"

text \<open>\<open>Phaser.Math.Clamp(value, min, max)\<close> is \<open>Math.max(min, Math.min(max, value))\<close>.\<close>

definition Clamp :: "number \<Rightarrow> number \<Rightarrow> number \<Rightarrow> number" where
  "Clamp v lo hi = max lo (min hi v)"

text \<open>Truthiness of an optional number, as in \<open>stats.range ? a : b\<close>: defined and not zero.\<close>

fun truthy :: "number option \<Rightarrow> bool" where
  "truthy None = False"
| "truthy (Some v) = (v \<noteq> 0)"

section \<open>Unit types (types/UnitType.ts, domain/army/unitTypeChecks.ts)\<close>

text \<open>
  Modelled from the spec: \<open>types/UnitType.ts\<close> and \<open>domain/army/unitTypeChecks.ts\<close> are
  not among the sources. The spec gives a unit-type identifier as drawn from three disjoint
  families (Regular, Hero, WarMachine), and \<open>isRegularUnit\<close>, \<open>isHeroType\<close>,
  \<open>isWarMachine\<close> as the membership tests of the families. The member names are those
  the sources use (\<open>unitRepository.ts\<close>, \<open>unitVisuals.ts\<close>).
\<close>

datatype RegularUnitName =
  WARD_HANDS | WARRIOR | DWARF | ORC | HALFLING | ELF | DARK_ELF
  | GOLEM | GARGOYLE | DENDRITE | UNDEAD

datatype HeroUnitName =
  FIGHTER | HAMMER_LORD | RANGER | SHADOW_BLADE | OGR | PYROMANCER
  | CLERIC | DRUID | ENCHANTER | NECROMANCER | WARSMITH

datatype WarMachineName = BALLISTA | CATAPULT | BATTERING_RAM | SIEGE_TOWER

datatype UnitType = Regular RegularUnitName | Hero HeroUnitName | WarMachine WarMachineName

fun isRegularUnit :: "UnitType \<Rightarrow> bool" where
  "isRegularUnit (Regular _) = True"
| "isRegularUnit _ = False"

fun isHeroType :: "UnitType \<Rightarrow> bool" where
  "isHeroType (Hero _) = True"
| "isHeroType _ = False"

fun isWarMachine :: "UnitType \<Rightarrow> bool" where
  "isWarMachine (WarMachine _) = True"
| "isWarMachine _ = False"

section \<open>The unit catalog (domain/army/unitRepository.ts)\<close>

record CombatStats =
  cs_attack :: number
  cs_defense :: number
  cs_health :: number
  cs_speed :: number
  cs_range :: "number option"
  cs_rangeDamage :: "number option"

definition melee :: "number \<Rightarrow> number \<Rightarrow> number \<Rightarrow> number \<Rightarrow> CombatStats" where
  "melee a d h s =
     \<lparr>cs_attack = a, cs_defense = d, cs_health = h, cs_speed = s,
      cs_range = None, cs_rangeDamage = None\<rparr>"

definition ranged ::
  "number \<Rightarrow> number \<Rightarrow> number \<Rightarrow> number \<Rightarrow> number \<Rightarrow> number \<Rightarrow> CombatStats" where
  "ranged a d r rd h s =
     \<lparr>cs_attack = a, cs_defense = d, cs_health = h, cs_speed = s,
      cs_range = Some r, cs_rangeDamage = Some rd\<rparr>"

text \<open>
  \<open>unitCombatStats[type]\<close>: the table has an entry for every Regular and every Hero name
  and none for a war machine, where the lookup gives \<open>undefined\<close>.
\<close>

fun unitCombatStats :: "UnitType \<Rightarrow> CombatStats option" where
  "unitCombatStats (Regular WARD_HANDS) = Some (melee 5 3 20 2)"
| "unitCombatStats (Regular WARRIOR) = Some (melee 8 6 25 2)"
| "unitCombatStats (Regular DWARF) = Some (melee 12 20 40 1)"
| "unitCombatStats (Regular GOLEM) = Some (melee 25 50 10 5)"
| "unitCombatStats (Regular GARGOYLE) = Some (melee 25 50 10 5)"
| "unitCombatStats (Regular DENDRITE) = Some (melee 25 50 10 5)"
| "unitCombatStats (Regular UNDEAD) = Some (melee 25 50 10 5)"
| "unitCombatStats (Regular ORC) = Some (melee 10 15 30 2)"
| "unitCombatStats (Regular HALFLING) = Some (ranged 6 3 15 8 15 4)"
| "unitCombatStats (Regular ELF) = Some (ranged 15 4 20 15 20 3)"
| "unitCombatStats (Regular DARK_ELF) = Some (ranged 15 4 20 15 20 3)"
| "unitCombatStats (Hero WARSMITH) = Some (ranged 30 3 2 30 18 4)"
| "unitCombatStats (Hero FIGHTER) = Some (ranged 30 3 2 30 18 4)"
| "unitCombatStats (Hero HAMMER_LORD) = Some (ranged 40 3 2 40 25 4)"
| "unitCombatStats (Hero OGR) = Some (ranged 40 4 2 45 30 3)"
| "unitCombatStats (Hero SHADOW_BLADE) = Some (ranged 30 3 30 30 18 5)"
| "unitCombatStats (Hero RANGER) = Some (ranged 30 3 30 30 18 5)"
| "unitCombatStats (Hero PYROMANCER) = Some (ranged 30 3 30 30 18 2)"
| "unitCombatStats (Hero CLERIC) = Some (ranged 25 5 2 25 20 2)"
| "unitCombatStats (Hero DRUID) = Some (ranged 20 4 2 20 22 3)"
| "unitCombatStats (Hero ENCHANTER) = Some (ranged 15 3 35 15 16 2)"
| "unitCombatStats (Hero NECROMANCER) = Some (ranged 35 2 25 35 15 2)"
| "unitCombatStats (WarMachine _) = None"

section \<open>Stat derivation and damage (domain/battle/combatRules.ts)\<close>

record BattleDerivedStats =
  bd_speed :: number
  bd_range :: number
  bd_isRanged :: bool
  bd_cooldownMs :: number

record AttackProfile =
  ap_attack :: number
  ap_rangeDamage :: "number option"

record DefenseProfile =
  dp_defense :: number

definition DEFAULT_MELEE_RANGE :: number where "DEFAULT_MELEE_RANGE = 18"
definition RANGE_SCALE :: number where "RANGE_SCALE = 5"
definition SPEED_SCALE :: number where "SPEED_SCALE = 20"
definition RANGED_THRESHOLD :: number where "RANGED_THRESHOLD = 10"
definition RANGED_COOLDOWN_MS :: number where "RANGED_COOLDOWN_MS = 700"
definition MELEE_COOLDOWN_MS :: number where "MELEE_COOLDOWN_MS = 450"

definition speedToPixelsPerSecond :: "number \<Rightarrow> number" where
  "speedToPixelsPerSecond speed = speed * SPEED_SCALE"

definition rangeToPixels :: "number option \<Rightarrow> number" where
  "rangeToPixels r =
     (case r of
        None \<Rightarrow> DEFAULT_MELEE_RANGE
      | Some v \<Rightarrow> if v \<noteq> 0 then v * RANGE_SCALE else DEFAULT_MELEE_RANGE)"

definition deriveBattleStats :: "CombatStats \<Rightarrow> BattleDerivedStats" where
  "deriveBattleStats stats =
     (let range = rangeToPixels (cs_range stats);
          isRanged = (case cs_range stats of None \<Rightarrow> False | Some r \<Rightarrow> r \<ge> RANGED_THRESHOLD)
      in \<lparr>bd_speed = speedToPixelsPerSecond (cs_speed stats),
          bd_range = range,
          bd_isRanged = isRanged,
          bd_cooldownMs =
            (if truthy (cs_range stats) then RANGED_COOLDOWN_MS else MELEE_COOLDOWN_MS)\<rparr>)"

definition calculateDamage :: "AttackProfile \<Rightarrow> DefenseProfile \<Rightarrow> number" where
  "calculateDamage attacker target =
     (let attackPower =
            (case ap_rangeDamage attacker of
               Some rd \<Rightarrow> if rd > 0 then rd else ap_attack attacker
             | None \<Rightarrow> ap_attack attacker);
          mitigation = dp_defense target * (45 / 100);
          rawDamage = attackPower - mitigation
      in max 1 (Math_round rawDamage))"

section \<open>War machine arming (types/WarMachineArming.ts)\<close>

text \<open>\<open>armedWith\<close> holds the identifier of the arming pack's type, as the source stores it.\<close>

record ArmedWarMachine =
  armedWith :: UnitType
  combatStats :: CombatStats

definition calculateArmedWarMachineStats :: "CombatStats \<Rightarrow> CombatStats" where
  "calculateArmedWarMachineStats unitStats =
     (let attack = Math_round (cs_attack unitStats * 2);
          defense = Math_round (cs_defense unitStats * 2);
          health = Math_round (cs_health unitStats * (5 / 2));
          speed = Math_round (cs_speed unitStats * (1 / 2));
          range = 35;
          rangeDamage = Math_round (attack * (6 / 5))
      in \<lparr>cs_attack = attack, cs_defense = defense, cs_health = health, cs_speed = speed,
          cs_range = Some range, cs_rangeDamage = Some rangeDamage\<rparr>)"

section \<open>The fast-forward resolver (domain/battle/simulateBattle.ts)\<close>

datatype Team = Attacker | Defender

record SimUnit =
  su_id :: nat
  su_team :: Team
  su_type :: UnitType
  su_attack :: number
  su_defense :: number
  su_hp :: number
  su_maxHp :: number
  su_speed :: number
  su_range :: number
  su_rangeDamage :: "number option"
  su_isRanged :: bool
  su_cooldownMs :: number
  su_lastAttackAt :: number
  su_x :: number

text \<open>An optional field of the configuration is \<open>None\<close> where the caller leaves it out.\<close>

record SimulationConfig =
  attackerType :: UnitType
  defenderType :: UnitType
  packSize :: "number option"
  attackerCount :: "number option"
  defenderCount :: "number option"
  maxDurationMs :: "number option"
  timeStepMs :: "number option"
  startDistance :: "number option"

datatype Winner = Won Team | Draw

record SimulationResult =
  winner :: Winner
  remaining_attacker :: nat
  remaining_defender :: nat
  durationMs :: number

text \<open>
  What the sources throw: the \<open>Error\<close> of \<open>buildUnit\<close>, and the \<open>TypeError\<close> of reading
  a property of \<open>undefined\<close>.
\<close>

datatype error = MissingCombatStats UnitType | TypeError

definition DEFAULT_PACK_SIZE :: number where "DEFAULT_PACK_SIZE = 20"
definition DEFAULT_MAX_DURATION_MS :: number where "DEFAULT_MAX_DURATION_MS = 60000"
definition DEFAULT_TIME_STEP_MS :: number where "DEFAULT_TIME_STEP_MS = 50"
definition DEFAULT_START_DISTANCE :: number where "DEFAULT_START_DISTANCE = 300"

definition buildUnit :: "UnitType \<Rightarrow> Team \<Rightarrow> nat \<Rightarrow> number \<Rightarrow> error + SimUnit" where
  "buildUnit type team ident x =
     (case unitCombatStats type of
        None \<Rightarrow> Inl (MissingCombatStats type)
      | Some stats \<Rightarrow>
          (let derived = deriveBattleStats stats
           in Inr \<lparr>su_id = ident, su_team = team, su_type = type,
                   su_attack = cs_attack stats, su_defense = cs_defense stats,
                   su_hp = cs_health stats, su_maxHp = cs_health stats,
                   su_speed = bd_speed derived, su_range = bd_range derived,
                   su_rangeDamage = cs_rangeDamage stats,
                   su_isRanged = bd_isRanged derived,
                   su_cooldownMs = bd_cooldownMs derived,
                   su_lastAttackAt = 0, su_x = x\<rparr>))"

text \<open>
  The loop of \<open>findNearestEnemy\<close>, with its two variables; \<open>bestDistance\<close> is \<open>None\<close>
  while it is \<open>Number.POSITIVE_INFINITY\<close>.
\<close>

fun findNearestLoop ::
  "SimUnit \<Rightarrow> SimUnit list \<Rightarrow> SimUnit option \<Rightarrow> number option \<Rightarrow> SimUnit option" where
  "findNearestLoop unit [] nearest bestDistance = nearest"
| "findNearestLoop unit (enemy # rest) nearest bestDistance =
     (if su_hp enemy \<le> 0 then findNearestLoop unit rest nearest bestDistance
      else
        (let distance = \<bar>bin64 (su_x enemy - su_x unit)\<bar>
         in if (case bestDistance of None \<Rightarrow> True | Some b \<Rightarrow> distance < b)
            then findNearestLoop unit rest (Some enemy) (Some distance)
            else findNearestLoop unit rest nearest bestDistance))"

definition findNearestEnemy :: "SimUnit \<Rightarrow> SimUnit list \<Rightarrow> SimUnit option" where
  "findNearestEnemy unit enemies = findNearestLoop unit enemies None None"

definition attackProfile :: "SimUnit \<Rightarrow> AttackProfile" where
  "attackProfile u = \<lparr>ap_attack = su_attack u, ap_rangeDamage = su_rangeDamage u\<rparr>"

definition defenseProfile :: "SimUnit \<Rightarrow> DefenseProfile" where
  "defenseProfile u = \<lparr>dp_defense = su_defense u\<rparr>"

text \<open>\<open>applyAttack\<close> changes both objects; the model returns both.\<close>

definition applyAttack :: "SimUnit \<Rightarrow> SimUnit \<Rightarrow> number \<Rightarrow> SimUnit \<times> SimUnit" where
  "applyAttack attacker target time =
     (let attacker' = attacker\<lparr>su_lastAttackAt := time\<rparr>;
          damage = calculateDamage (attackProfile attacker') (defenseProfile target)
      in (attacker', target\<lparr>su_hp := bin64 (su_hp target - damage)\<rparr>))"

text \<open>
  The units are objects shared by the team arrays and the ordered array of a tick. An
  object is found in an array, and written back to it, by its \<open>id\<close>, which
  \<open>simulateBattle\<close> gives to one unit only.
\<close>

definition getUnit :: "nat \<Rightarrow> SimUnit list \<Rightarrow> SimUnit option" where
  "getUnit ident us = find (\<lambda>v. su_id v = ident) us"

definition putUnit :: "SimUnit \<Rightarrow> SimUnit list \<Rightarrow> SimUnit list" where
  "putUnit u us = map (\<lambda>v. if su_id v = su_id u then u else v) us"

text \<open>\<open>stepUnit\<close> returns the unit and the enemies as the call leaves them.\<close>

definition stepUnit ::
  "SimUnit \<Rightarrow> SimUnit list \<Rightarrow> number \<Rightarrow> number \<Rightarrow> SimUnit \<times> SimUnit list" where
  "stepUnit unit enemies time deltaMs =
     (if su_hp unit \<le> 0 then (unit, enemies)
      else
        (case findNearestEnemy unit enemies of
           None \<Rightarrow> (unit, enemies)
         | Some target \<Rightarrow>
             (let distance = \<bar>bin64 (su_x target - su_x unit)\<bar>
              in if distance \<le> su_range unit
                 then
                   (if bin64 (time - su_lastAttackAt unit) \<ge> su_cooldownMs unit
                    then (let (unit', target') = applyAttack unit target time
                          in (unit', putUnit target' enemies))
                    else (unit, enemies))
                 else
                   (let moveDistance = bin64 (bin64 (su_speed unit * deltaMs) / 1000);
                        direction = sgn (bin64 (su_x target - su_x unit))
                    in (unit\<lparr>su_x := bin64 (su_x unit + bin64 (direction * moveDistance))\<rparr>,
                        enemies)))))"

fun buildUnits ::
  "UnitType \<Rightarrow> Team \<Rightarrow> number \<Rightarrow> nat \<Rightarrow> nat list \<Rightarrow> error + SimUnit list" where
  "buildUnits type team startX startId [] = Inr []"
| "buildUnits type team startX startId (i # rest) =
     (case buildUnit type team (startId + i) startX of
        Inl e \<Rightarrow> Inl e
      | Inr u \<Rightarrow>
          (case buildUnits type team startX startId rest of
             Inl e \<Rightarrow> Inl e
           | Inr us \<Rightarrow> Inr (u # us)))"

text \<open>
  \<open>createPack\<close> takes the size of the pack as a number. Its loop
  \<open>for (let i = 0; i < packSize; i += 1)\<close> builds a unit for every \<open>i = 0, 1, 2, \<dots>\<close> below
  \<open>packSize\<close>: \<open>\<lceil>packSize\<rceil>\<close> units for a positive size, whole or not (two units for 1.5),
  and none for a size of zero or less.
\<close>

definition createPack ::
  "UnitType \<Rightarrow> Team \<Rightarrow> number \<Rightarrow> number \<Rightarrow> nat \<Rightarrow> error + SimUnit list" where
  "createPack type team n startX startId =
     buildUnits type team startX startId [0..<nat \<lceil>n\<rceil>]"

record SimState =
  st_attackers :: "SimUnit list"
  st_defenders :: "SimUnit list"
  st_time :: number

text \<open>
  One turn of the inner \<open>for\<close> loop: \<open>unit\<close> is the element of \<open>orderedUnits\<close>, whose
  fields are read from the team array that holds the object.
\<close>

definition stepOrdered ::
  "number \<Rightarrow> number \<Rightarrow> SimUnit \<Rightarrow> SimUnit list \<times> SimUnit list
     \<Rightarrow> SimUnit list \<times> SimUnit list" where
  "stepOrdered time timeStep unit teams =
     (let (attackers, defenders) = teams
      in if su_team unit = Attacker
         then
           (case getUnit (su_id unit) attackers of
              None \<Rightarrow> (attackers, defenders)
            | Some u \<Rightarrow>
                (let (u', defenders') = stepUnit u defenders time timeStep
                 in (putUnit u' attackers, defenders')))
         else
           (case getUnit (su_id unit) defenders of
              None \<Rightarrow> (attackers, defenders)
            | Some u \<Rightarrow>
                (let (u', attackers') = stepUnit u attackers time timeStep
                 in (attackers', putUnit u' defenders))))"

text \<open>The body of the \<open>while\<close> loop; \<open>time += timeStepMs\<close> is a binary64 addition.\<close>

definition simTick :: "number \<Rightarrow> SimState \<Rightarrow> SimState" where
  "simTick timeStep s =
     (let orderedUnits = sort_key su_id (st_attackers s @ st_defenders s);
          (attackers, defenders) =
            fold (stepOrdered (st_time s) timeStep) orderedUnits
              (st_attackers s, st_defenders s)
      in \<lparr>st_attackers = filter (\<lambda>unit. su_hp unit > 0) attackers,
          st_defenders = filter (\<lambda>unit. su_hp unit > 0) defenders,
          st_time = bin64 (st_time s + timeStep)\<rparr>)"

text \<open>The condition of the \<open>while\<close> loop.\<close>

definition simRunning :: "number \<Rightarrow> SimState \<Rightarrow> bool" where
  "simRunning maxDuration s \<longleftrightarrow>
     st_time s \<le> maxDuration \<and> st_attackers s \<noteq> [] \<and> st_defenders s \<noteq> []"

text \<open>The \<open>while\<close> loop: \<open>None\<close> where it runs forever.\<close>

partial_function (option) simLoop :: "number \<Rightarrow> number \<Rightarrow> SimState \<Rightarrow> SimState option" where
  "simLoop maxDuration timeStep s =
     (if simRunning maxDuration s
      then simLoop maxDuration timeStep (simTick timeStep s)
      else Some s)"

declare simLoop.simps [code]

definition simResult :: "SimState \<Rightarrow> SimulationResult" where
  "simResult s =
     \<lparr>winner =
        (if st_attackers s \<noteq> [] \<and> st_defenders s = [] then Won Attacker
         else if st_defenders s \<noteq> [] \<and> st_attackers s = [] then Won Defender
         else Draw),
      remaining_attacker = length (st_attackers s),
      remaining_defender = length (st_defenders s),
      durationMs = st_time s\<rparr>"

text \<open>The defaults of the destructuring of \<open>config\<close>.\<close>

definition effPackSize :: "SimulationConfig \<Rightarrow> number" where
  "effPackSize config = (case packSize config of None \<Rightarrow> DEFAULT_PACK_SIZE | Some n \<Rightarrow> n)"

definition effAttackerCount :: "SimulationConfig \<Rightarrow> number" where
  "effAttackerCount config =
     (case attackerCount config of None \<Rightarrow> effPackSize config | Some n \<Rightarrow> n)"

definition effDefenderCount :: "SimulationConfig \<Rightarrow> number" where
  "effDefenderCount config =
     (case defenderCount config of None \<Rightarrow> effPackSize config | Some n \<Rightarrow> n)"

definition effMaxDurationMs :: "SimulationConfig \<Rightarrow> number" where
  "effMaxDurationMs config =
     (case maxDurationMs config of None \<Rightarrow> DEFAULT_MAX_DURATION_MS | Some v \<Rightarrow> v)"

definition effTimeStepMs :: "SimulationConfig \<Rightarrow> number" where
  "effTimeStepMs config =
     (case timeStepMs config of None \<Rightarrow> DEFAULT_TIME_STEP_MS | Some v \<Rightarrow> v)"

definition effStartDistance :: "SimulationConfig \<Rightarrow> number" where
  "effStartDistance config =
     (case startDistance config of None \<Rightarrow> DEFAULT_START_DISTANCE | Some v \<Rightarrow> v)"

text \<open>
  The part of \<open>simulateBattle\<close> before the loop: the two packs, the attackers at 0 with
  the identifiers from 1, the defenders at \<open>startDistance\<close> with the identifiers that
  follow. It throws what \<open>buildUnit\<close> throws.
\<close>

definition initialState :: "SimulationConfig \<Rightarrow> error + SimState" where
  "initialState config =
     (let nextId = 1
      in case createPack (attackerType config) Attacker (effAttackerCount config) 0 nextId of
           Inl e \<Rightarrow> Inl e
         | Inr attackers \<Rightarrow>
             (let nextId' = nextId + length attackers
              in case createPack (defenderType config) Defender (effDefenderCount config)
                        (effStartDistance config) nextId' of
                   Inl e \<Rightarrow> Inl e
                 | Inr defenders \<Rightarrow>
                     Inr \<lparr>st_attackers = attackers, st_defenders = defenders, st_time = 0\<rparr>))"

text \<open>
  \<open>simulateBattle\<close>: \<open>None\<close> where the loop runs forever, \<open>Some (Inl e)\<close> where the call
  throws \<open>e\<close>, \<open>Some (Inr r)\<close> where it returns \<open>r\<close>.
\<close>

definition simulateBattle :: "SimulationConfig \<Rightarrow> (error + SimulationResult) option" where
  "simulateBattle config =
     (case initialState config of
        Inl e \<Rightarrow> Some (Inl e)
      | Inr s0 \<Rightarrow>
          (case simLoop (effMaxDurationMs config) (effTimeStepMs config) s0 of
             None \<Rightarrow> None
           | Some s \<Rightarrow> Some (Inr (simResult s))))"

section \<open>Map constants (game/battleConfig.ts, game/battleTypes.ts)\<close>

datatype Phase = deploy | battle

record Zone =
  zone_x :: number
  zone_width :: number

definition MAP_WIDTH :: number where "MAP_WIDTH = 1200"
definition MAP_HEIGHT :: number where "MAP_HEIGHT = 700"

definition ZONE_ATTACKER :: Zone where
  "ZONE_ATTACKER = \<lparr>zone_x = 0, zone_width = MAP_WIDTH * (3 / 10)\<rparr>"

definition ZONE_NEUTRAL :: Zone where
  "ZONE_NEUTRAL = \<lparr>zone_x = MAP_WIDTH * (3 / 10), zone_width = MAP_WIDTH * (1 / 10)\<rparr>"

definition ZONE_DEFENDER :: Zone where
  "ZONE_DEFENDER = \<lparr>zone_x = MAP_WIDTH * (4 / 10), zone_width = MAP_WIDTH * (6 / 10)\<rparr>"

definition PACK_SIZE :: nat where "PACK_SIZE = 20"
definition PACK_ROWS :: nat where "PACK_ROWS = 4"
definition PACK_COLS :: nat where "PACK_COLS = 5"
definition PACK_SPACING :: number where "PACK_SPACING = 12"
definition MAX_UNITS :: nat where "MAX_UNITS = 500"

section \<open>Deployment (game/DeployManager.ts)\<close>

text \<open>
  Of a pack's sprite the model keeps the position. The packs are objects held in the map
  \<open>packs\<close> under their \<open>id\<close>; the map keeps insertion order, so it is an association
  list, and a reference to a pack (\<open>warMachineToArm\<close>) is the pack's \<open>id\<close>. Drawing
  (stroke and fill styles, the range indicator) is left out.
\<close>

record DeployPack =
  dpk_id :: nat
  dpk_team :: Team
  dpk_type :: UnitType
  dpk_size :: nat
  dpk_sprite_x :: number
  dpk_sprite_y :: number
  dpk_range :: number
  dpk_isRanged :: bool
  dpk_armedWarMachine :: "ArmedWarMachine option"

record DeployManager =
  packs :: "(nat \<times> DeployPack) list"
  nextPackId :: nat
  deployTeam :: Team
  deployUnitType :: UnitType
  armingMode :: bool
  warMachineToArm :: "nat option"
  selectedPackId :: "nat option"

text \<open>The manager as its field initialisers leave it.\<close>

definition newDeployManager :: DeployManager where
  "newDeployManager =
     \<lparr>packs = [], nextPackId = 1, deployTeam = Attacker, deployUnitType = Regular WARRIOR,
      armingMode = False, warMachineToArm = None, selectedPackId = None\<rparr>"

definition getPacks :: "DeployManager \<Rightarrow> DeployPack list" where
  "getPacks dm = map snd (packs dm)"

definition getTeamUnitCount :: "DeployManager \<Rightarrow> Team \<Rightarrow> nat" where
  "getTeamUnitCount dm team =
     foldl (\<lambda>count pack. if dpk_team pack = team then count + dpk_size pack else count)
       0 (map snd (packs dm))"

definition getZoneForTeam :: "Team \<Rightarrow> Zone" where
  "getZoneForTeam team = (if team = Attacker then ZONE_ATTACKER else ZONE_DEFENDER)"

definition pointInZone :: "number \<Rightarrow> number \<Rightarrow> Zone \<Rightarrow> bool" where
  "pointInZone x y zone \<longleftrightarrow>
     x \<ge> zone_x zone \<and> x \<le> zone_x zone + zone_width zone \<and> y \<ge> 0 \<and> y \<le> MAP_HEIGHT"

definition clampToZone :: "number \<Rightarrow> number \<Rightarrow> Zone \<Rightarrow> number \<times> number" where
  "clampToZone x y zone =
     (let minX = zone_x zone + 8;
          maxX = zone_x zone + zone_width zone - 8;
          clampedX = Clamp x minX maxX;
          clampedY = Clamp y 10 (MAP_HEIGHT - 10)
      in (clampedX, clampedY))"

text \<open>
  \<open>DeployManager.createPack\<close>; it hands \<open>unitCombatStats[type]\<close> to \<open>deriveBattleStats\<close>
  unchecked, which reads \<open>stats.range\<close>: a \<open>TypeError\<close> where the table has no entry.
\<close>

definition createDeployPack ::
  "DeployManager \<Rightarrow> number \<Rightarrow> number \<Rightarrow> Team \<Rightarrow> UnitType \<Rightarrow> nat
     \<Rightarrow> error + DeployPack \<times> DeployManager" where
  "createDeployPack dm x y team type sz =
     (case unitCombatStats type of
        None \<Rightarrow> Inl TypeError
      | Some combatData \<Rightarrow>
          (let derived = deriveBattleStats combatData;
               pack = \<lparr>dpk_id = nextPackId dm, dpk_team = team, dpk_type = type,
                       dpk_size = sz, dpk_sprite_x = x, dpk_sprite_y = y,
                       dpk_range = bd_range derived, dpk_isRanged = bd_isRanged derived,
                       dpk_armedWarMachine = None\<rparr>
           in Inr (pack, dm\<lparr>nextPackId := nextPackId dm + 1\<rparr>)))"

definition spawnPack ::
  "DeployManager \<Rightarrow> number \<Rightarrow> number \<Rightarrow> Team \<Rightarrow> UnitType \<Rightarrow> error + DeployManager" where
  "spawnPack dm x y team type =
     (let zone = getZoneForTeam team
      in if \<not> pointInZone x y zone then Inr dm
         else
           (let isSingleUnit = (isHeroType type \<or> isWarMachine type);
                unitsToSpawn = (if isSingleUnit then 1 else PACK_SIZE);
                currentCount = getTeamUnitCount dm team
            in if currentCount + unitsToSpawn > MAX_UNITS then Inr dm
               else
                 (let (packX, packY) = clampToZone x y zone
                  in case createDeployPack dm packX packY team type unitsToSpawn of
                       Inl e \<Rightarrow> Inl e
                     | Inr (pack, dm') \<Rightarrow>
                         Inr (dm'\<lparr>packs := AList.update (dpk_id pack) pack (packs dm')\<rparr>))))"

definition clearSelection :: "DeployManager \<Rightarrow> DeployManager" where
  "clearSelection dm = dm\<lparr>selectedPackId := None\<rparr>"

definition exitArmingMode :: "DeployManager \<Rightarrow> DeployManager" where
  "exitArmingMode dm = dm\<lparr>armingMode := False, warMachineToArm := None\<rparr>"

definition removePack :: "DeployManager \<Rightarrow> DeployPack \<Rightarrow> DeployManager" where
  "removePack dm pack =
     (let dm1 = (if selectedPackId dm = Some (dpk_id pack) then clearSelection dm else dm);
          dm2 = (if warMachineToArm dm1 = Some (dpk_id pack) then exitArmingMode dm1 else dm1)
      in dm2\<lparr>packs := AList.delete (dpk_id pack) (packs dm2)\<rparr>)"

text \<open>
  \<open>armWarMachine\<close> changes the object \<open>warMachine\<close> and the map. The model returns the
  manager, in whose map the entry of the war machine holds the changed object, and the
  war machine as the call leaves it.
\<close>

definition armWarMachine ::
  "DeployManager \<Rightarrow> DeployPack \<Rightarrow> DeployPack \<Rightarrow> error + DeployManager \<times> DeployPack" where
  "armWarMachine dm warMachine armingPack =
     (if \<not> isRegularUnit (dpk_type armingPack) then Inr (dm, warMachine)
      else
        (case unitCombatStats (dpk_type armingPack) of
           None \<Rightarrow> Inl TypeError
         | Some armingStats \<Rightarrow>
             if truthy (cs_range armingStats) \<and>
                (case cs_range armingStats of None \<Rightarrow> False | Some r \<Rightarrow> r > 0)
             then Inr (dm, warMachine)
             else if dpk_size armingPack < PACK_SIZE then Inr (dm, warMachine)
             else
               (let armedStats = calculateArmedWarMachineStats armingStats;
                    warMachine' = warMachine
                      \<lparr>dpk_armedWarMachine :=
                         Some \<lparr>armedWith = dpk_type armingPack, combatStats = armedStats\<rparr>,
                       dpk_range := rangeToPixels (cs_range armedStats),
                       dpk_isRanged := True\<rparr>;
                    dm1 = dm\<lparr>packs :=
                      map (\<lambda>(k, p). if k = dpk_id warMachine then (k, warMachine') else (k, p))
                        (packs dm)\<rparr>
                in Inr (removePack dm1 armingPack, warMachine'))))"

definition reset :: "DeployManager \<Rightarrow> DeployManager" where
  "reset dm = (clearSelection (exitArmingMode dm))\<lparr>packs := [], nextPackId := 1\<rparr>"

section \<open>The scene (game/BattleScene.ts)\<close>

record Unit =
  u_id :: nat
  u_team :: Team
  u_type :: UnitType
  u_attack :: number
  u_defense :: number
  u_hp :: number
  u_maxHp :: number
  u_speed :: number
  u_range :: number
  u_rangeDamage :: "number option"
  u_isRanged :: bool
  u_cooldownMs :: number
  u_lastAttackAt :: number
  u_sprite_x :: number
  u_sprite_y :: number
  u_targetId :: "nat option"
  u_armedWarMachine :: "ArmedWarMachine option"

record BattleScene =
  phase :: Phase
  deployManager :: "DeployManager option"
  units :: "(nat \<times> Unit) list"
  attackers :: "Unit list"
  defenders :: "Unit list"
  nextUnitId :: nat

text \<open>\<open>this.deployManager?.getPacks() ?? []\<close>, as \<open>autoResolveBattle\<close> reads the packs.\<close>

definition scenePacks :: "BattleScene \<Rightarrow> DeployPack list" where
  "scenePacks bs = (case deployManager bs of None \<Rightarrow> [] | Some dm \<Rightarrow> getPacks dm)"

text \<open>\<open>deployManager?.getTeamUnitCount(team) ?? 0\<close>, as \<open>emitStats\<close> counts a side.\<close>

definition sceneTeamUnitCount :: "BattleScene \<Rightarrow> Team \<Rightarrow> nat" where
  "sceneTeamUnitCount bs team =
     (case deployManager bs of None \<Rightarrow> 0 | Some dm \<Rightarrow> getTeamUnitCount dm team)"

text \<open>The scene as its field initialisers and \<open>create\<close> leave it.\<close>

definition newBattleScene :: BattleScene where
  "newBattleScene =
     \<lparr>phase = deploy, deployManager = Some newDeployManager, units = [], attackers = [],
      defenders = [], nextUnitId = 1\<rparr>"

definition applyArmedWarMachineStats :: "Unit \<Rightarrow> ArmedWarMachine \<Rightarrow> Unit" where
  "applyArmedWarMachineStats unit armedWarMachine =
     (let armedStats = combatStats armedWarMachine;
          derived = deriveBattleStats armedStats
      in unit\<lparr>u_attack := cs_attack armedStats,
              u_defense := cs_defense armedStats,
              u_maxHp := cs_health armedStats,
              u_hp := cs_health armedStats,
              u_speed := bd_speed derived,
              u_range := bd_range derived,
              u_rangeDamage := cs_rangeDamage armedStats,
              u_isRanged := bd_isRanged derived,
              u_cooldownMs := bd_cooldownMs derived\<rparr>)"

text \<open>\<open>createUnit\<close> logs and returns where the table has no entry for the type.\<close>

definition createUnit ::
  "BattleScene \<Rightarrow> number \<Rightarrow> number \<Rightarrow> Team \<Rightarrow> UnitType \<Rightarrow> ArmedWarMachine option
     \<Rightarrow> BattleScene" where
  "createUnit bs x y team type armedWarMachine =
     (case unitCombatStats type of
        None \<Rightarrow> bs
      | Some combatData \<Rightarrow>
          (let derived = deriveBattleStats combatData;
               ident = nextUnitId bs;
               unit = \<lparr>u_id = ident, u_team = team, u_type = type,
                       u_attack = cs_attack combatData, u_defense = cs_defense combatData,
                       u_hp = cs_health combatData, u_maxHp = cs_health combatData,
                       u_speed = bd_speed derived, u_range = bd_range derived,
                       u_rangeDamage = cs_rangeDamage combatData,
                       u_isRanged = bd_isRanged derived,
                       u_cooldownMs = bd_cooldownMs derived,
                       u_lastAttackAt = 0, u_sprite_x = x, u_sprite_y = y,
                       u_targetId = None, u_armedWarMachine = armedWarMachine\<rparr>;
               unit' = (case armedWarMachine of
                          None \<Rightarrow> unit
                        | Some a \<Rightarrow> applyArmedWarMachineStats unit a);
               bs' = bs\<lparr>nextUnitId := ident + 1, units := AList.update ident unit' (units bs)\<rparr>
           in if team = Attacker then bs'\<lparr>attackers := attackers bs' @ [unit']\<rparr>
              else bs'\<lparr>defenders := defenders bs' @ [unit']\<rparr>))"

definition spawnUnitsForTeam :: "BattleScene \<Rightarrow> Team \<Rightarrow> UnitType \<Rightarrow> nat \<Rightarrow> BattleScene" where
  "spawnUnitsForTeam bs team type count =
     (if count \<le> 0 then bs
      else
        (let zone = getZoneForTeam team;
             minX = zone_x zone + 18;
             maxX = zone_x zone + zone_width zone - 18;
             centerX = Clamp (zone_x zone + zone_width zone / 2) minX maxX;
             centerY = MAP_HEIGHT / 2;
             isSingleUnit = (isHeroType type \<or> isWarMachine type);
             spacing = (if isSingleUnit then 24 else PACK_SPACING);
             columns = (if isSingleUnit then 1 else PACK_COLS)
         in fold
              (\<lambda>i scene.
                 (let row = i div columns;
                      col = i mod columns;
                      offsetX = (of_nat col - (of_nat columns - 1) / 2) * spacing;
                      offsetY = (of_nat row - 2) * spacing;
                      x = Clamp (centerX + offsetX) minX maxX;
                      y = Clamp (centerY + offsetY) 10 (MAP_HEIGHT - 10)
                  in createUnit scene x y team type None))
              [0..<count] bs))"

definition resetBattle :: "BattleScene \<Rightarrow> BattleScene" where
  "resetBattle bs =
     bs\<lparr>phase := deploy, units := [], attackers := [], defenders := [], nextUnitId := 1,
        deployManager := map_option reset (deployManager bs)\<rparr>"

text \<open>\<open>new Set(values)\<close>, in insertion order.\<close>

definition newSet :: "'a list \<Rightarrow> 'a list" where
  "newSet vs = foldl (\<lambda>acc v. if v \<in> set acc then acc else acc @ [v]) [] vs"

text \<open>
  \<open>autoResolveBattle\<close>: \<open>None\<close> where the resolver runs forever, \<open>Some (Inl e)\<close> where
  the call throws, \<open>Some (Inr (r, scene))\<close> where it returns \<open>r\<close> (\<open>None\<close> for \<open>null\<close>)
  and leaves the scene as \<open>scene\<close>.
\<close>

definition autoResolveBattle ::
  "BattleScene \<Rightarrow> (error + SimulationResult option \<times> BattleScene) option" where
  "autoResolveBattle bs =
     (if phase bs \<noteq> deploy then Some (Inr (None, bs))
      else
        (let allPacks = scenePacks bs;
             attackerPacks = filter (\<lambda>pack. dpk_team pack = Attacker) allPacks;
             defenderPacks = filter (\<lambda>pack. dpk_team pack = Defender) allPacks
         in if length attackerPacks = 0 \<or> length defenderPacks = 0 then Some (Inr (None, bs))
            else
              (let attackerTypes = newSet (map dpk_type attackerPacks);
                   defenderTypes = newSet (map dpk_type defenderPacks)
               in case (attackerTypes, defenderTypes) of
                    ([aType], [dType]) \<Rightarrow>
                      if list_ex (\<lambda>pack. isWarMachine (dpk_type pack) \<and>
                                          dpk_armedWarMachine pack \<noteq> None) allPacks
                      then Some (Inr (None, bs))
                      else
                        (let aCount =
                               foldl (\<lambda>sum pack. sum + dpk_size pack) 0 attackerPacks;
                             dCount =
                               foldl (\<lambda>sum pack. sum + dpk_size pack) 0 defenderPacks
                         in case simulateBattle
                                   \<lparr>attackerType = aType, defenderType = dType,
                                    packSize = None,
                                    attackerCount = Some (of_nat aCount),
                                    defenderCount = Some (of_nat dCount),
                                    maxDurationMs = Some 90000,
                                    timeStepMs = Some 50,
                                    startDistance = Some 300\<rparr> of
                              None \<Rightarrow> None
                            | Some (Inl e) \<Rightarrow> Some (Inl e)
                            | Some (Inr result) \<Rightarrow>
                                (let bs1 = (resetBattle bs)\<lparr>phase := battle\<rparr>;
                                     bs2 =
                                       (if winner result = Won Attacker
                                        then spawnUnitsForTeam bs1 Attacker aType
                                               (remaining_attacker result)
                                        else if winner result = Won Defender
                                        then spawnUnitsForTeam bs1 Defender dType
                                               (remaining_defender result)
                                        else bs1)
                                 in Some (Inr (Some result, bs2))))
                  | _ \<Rightarrow> Some (Inr (None, bs)))))"

section \<open>The duel: one unit a side at distance zero\<close>

text \<open>
  The quantities in which the spec states the duration of a duel, for the catalog entries
  of the unit that strikes and of its target: the damage of one hit, by the shared
  formula; \<open>requiredHits = ceil (targetHp / damage)\<close>; the number of time steps from one
  attack to the next, \<open>ceil (cooldownMs / timeStepMs)\<close>; and the number of the turn of the
  loop (counted from 0) in which the last of the required hits lands.
\<close>

definition hitDamage :: "CombatStats \<Rightarrow> CombatStats \<Rightarrow> number" where
  "hitDamage striker target =
     calculateDamage
       \<lparr>ap_attack = cs_attack striker, ap_rangeDamage = cs_rangeDamage striker\<rparr>
       \<lparr>dp_defense = cs_defense target\<rparr>"

definition requiredHits :: "CombatStats \<Rightarrow> CombatStats \<Rightarrow> nat" where
  "requiredHits striker target = nat \<lceil>cs_health target / hitDamage striker target\<rceil>"

definition stepsPerAttack :: "CombatStats \<Rightarrow> number \<Rightarrow> nat" where
  "stepsPerAttack striker timeStep =
     nat \<lceil>bd_cooldownMs (deriveBattleStats striker) / timeStep\<rceil>"

definition killTurn :: "CombatStats \<Rightarrow> CombatStats \<Rightarrow> number \<Rightarrow> nat" where
  "killTurn striker target timeStep =
     requiredHits striker target * stepsPerAttack striker timeStep"

section \<open>Example inputs\<close>

text \<open>One unit a side, the two at the given distance, with the given cap and time step.\<close>

definition duel :: "UnitType \<Rightarrow> UnitType \<Rightarrow> number \<Rightarrow> number \<Rightarrow> number \<Rightarrow> SimulationConfig" where
  "duel a d distance cap step =
     \<lparr>attackerType = a, defenderType = d, packSize = None,
      attackerCount = Some 1, defenderCount = Some 1,
      maxDurationMs = Some cap, timeStepMs = Some step, startDistance = Some distance\<rparr>"

text \<open>The given numbers of units a side.\<close>

definition skirmish ::
  "UnitType \<Rightarrow> number \<Rightarrow> UnitType \<Rightarrow> number \<Rightarrow> number \<Rightarrow> number \<Rightarrow> number
     \<Rightarrow> SimulationConfig" where
  "skirmish a na d nd distance cap step =
     \<lparr>attackerType = a, defenderType = d, packSize = None,
      attackerCount = Some na, defenderCount = Some nd,
      maxDurationMs = Some cap, timeStepMs = Some step, startDistance = Some distance\<rparr>"

text \<open>A pack as \<open>spawnPack\<close> places it, of the given size.\<close>

definition placedPack :: "nat \<Rightarrow> Team \<Rightarrow> UnitType \<Rightarrow> nat \<Rightarrow> DeployPack" where
  "placedPack ident team type sz =
     \<lparr>dpk_id = ident, dpk_team = team, dpk_type = type, dpk_size = sz,
      dpk_sprite_x = (if team = Attacker then 100 else 600), dpk_sprite_y = 100,
      dpk_range = (case unitCombatStats type of
                     None \<Rightarrow> DEFAULT_MELEE_RANGE
                   | Some stats \<Rightarrow> bd_range (deriveBattleStats stats)),
      dpk_isRanged = (case unitCombatStats type of
                        None \<Rightarrow> False
                      | Some stats \<Rightarrow> bd_isRanged (deriveBattleStats stats)),
      dpk_armedWarMachine = None\<rparr>"

text \<open>A scene in the deploy phase that holds the given packs.\<close>

definition sceneWith :: "DeployPack list \<Rightarrow> BattleScene" where
  "sceneWith ps =
     newBattleScene
       \<lparr>deployManager :=
          Some (newDeployManager\<lparr>packs := map (\<lambda>p. (dpk_id p, p)) ps,
                                 nextPackId := length ps + 1\<rparr>)\<rparr>"

section \<open>Evaluating \<open>Math.round\<close> on numerals\<close>

lemma floor_rat_numeral [simp]:
  "\<lfloor>(numeral a / numeral b :: rat)\<rfloor> = numeral a div numeral b"
  "\<lfloor>(- numeral a / numeral b :: rat)\<rfloor> = - numeral a div numeral b"
  "\<lfloor>(- (numeral a / numeral b) :: rat)\<rfloor> = - numeral a div numeral b"
proof -
  show "\<lfloor>(numeral a / numeral b :: rat)\<rfloor> = numeral a div numeral b"
    using floor_divide_of_int_eq [of "numeral a" "numeral b", where ?'a = rat] by simp
  show "\<lfloor>(- numeral a / numeral b :: rat)\<rfloor> = - numeral a div numeral b"
    using floor_divide_of_int_eq [of "- numeral a" "numeral b", where ?'a = rat] by simp
  then show "\<lfloor>(- (numeral a / numeral b) :: rat)\<rfloor> = - numeral a div numeral b"
    by simp
qed

section \<open>The damage formula\<close>

text \<open>
  C1. The shared damage function takes as attack power the attacker's \<open>rangeDamage\<close> when
  it is defined and positive and the attacker's \<open>attack\<close> otherwise, subtracts the
  mitigation \<open>defense * 0.45\<close>, rounds, and returns the greater of 1 and the rounded value.
  The damage is therefore a whole number and at least 1; this holds for every attacker and
  target, in particular for those with \<open>attack \<ge> 0\<close> and \<open>defense \<ge> 0\<close>.
\<close>

theorem calculateDamage_formula_floor:
  "calculateDamage attacker target =
     max 1 (Math_round
       ((if \<exists>rd. ap_rangeDamage attacker = Some rd \<and> rd > 0
         then the (ap_rangeDamage attacker) else ap_attack attacker)
        - dp_defense target * (45 / 100)))
   \<and> calculateDamage attacker target \<ge> 1
   \<and> calculateDamage attacker target \<in> \<int>"
  by (auto simp: calculateDamage_def Let_def Math_round_def max_def split: option.splits)

text \<open>
  A Warrior (attack 8) against a Dwarf (defense 20) is held at the floor of 1; a Halfling
  (attack 6, range damage 8) against defense 3 deals \<open>round (8 - 1.35) = 7\<close>.
\<close>

theorem calculateDamage_formula_floor_witness:
  "(0::number) \<le> 8 \<and> (0::number) \<le> 20
   \<and> calculateDamage \<lparr>ap_attack = 8, ap_rangeDamage = None\<rparr> \<lparr>dp_defense = 20\<rparr> = 1
   \<and> calculateDamage \<lparr>ap_attack = 6, ap_rangeDamage = Some 8\<rparr> \<lparr>dp_defense = 3\<rparr> = 7"
  using calculateDamage_formula_floor
          [of "\<lparr>ap_attack = 8, ap_rangeDamage = None\<rparr>" "\<lparr>dp_defense = 20\<rparr>"]
        calculateDamage_formula_floor
          [of "\<lparr>ap_attack = 6, ap_rangeDamage = Some 8\<rparr>" "\<lparr>dp_defense = 3\<rparr>"]
  by (simp add: Math_round_def)

section \<open>Stat derivation\<close>

text \<open>
  C2. For every catalog entry (attack positive, defense not negative, health and speed
  positive, a range, where present, positive) the derived profile is exactly: movement
  speed \<open>speed * 20\<close>; engagement range \<open>range * 5\<close> where the range is present and 18
  otherwise; ranged if and only if the range is present and at least 10; cooldown 700 where
  the range is present and 450 otherwise. The derivation is a total function of the entry.
\<close>

theorem deriveBattleStats_exact:
  assumes "cs_attack stats > 0" and "cs_defense stats \<ge> 0" and "cs_health stats > 0"
    and "cs_speed stats > 0" and "\<forall>r. cs_range stats = Some r \<longrightarrow> r > 0"
  shows "bd_speed (deriveBattleStats stats) = cs_speed stats * 20
    \<and> bd_range (deriveBattleStats stats) =
        (case cs_range stats of Some r \<Rightarrow> r * 5 | None \<Rightarrow> 18)
    \<and> (bd_isRanged (deriveBattleStats stats) \<longleftrightarrow> (\<exists>r. cs_range stats = Some r \<and> r \<ge> 10))
    \<and> bd_cooldownMs (deriveBattleStats stats) =
        (case cs_range stats of Some r \<Rightarrow> 700 | None \<Rightarrow> 450)"
  using assms
  by (auto simp: deriveBattleStats_def Let_def rangeToPixels_def speedToPixelsPerSecond_def
      SPEED_SCALE_def RANGE_SCALE_def DEFAULT_MELEE_RANGE_def RANGED_THRESHOLD_def
      RANGED_COOLDOWN_MS_def MELEE_COOLDOWN_MS_def split: option.splits)

text \<open>
  The Fighter (range 2: below the threshold, so not ranged, yet with the cooldown of 700),
  the Warrior (no range) and the Elf (range 20).
\<close>

theorem deriveBattleStats_exact_witness:
  "deriveBattleStats (ranged 30 3 2 30 18 4) =
     \<lparr>bd_speed = 80, bd_range = 10, bd_isRanged = False, bd_cooldownMs = 700\<rparr>
   \<and> deriveBattleStats (melee 8 6 25 2) =
     \<lparr>bd_speed = 40, bd_range = 18, bd_isRanged = False, bd_cooldownMs = 450\<rparr>
   \<and> deriveBattleStats (ranged 15 4 20 15 20 3) =
     \<lparr>bd_speed = 60, bd_range = 100, bd_isRanged = True, bd_cooldownMs = 700\<rparr>"
  using deriveBattleStats_exact [of "ranged 30 3 2 30 18 4"]
        deriveBattleStats_exact [of "melee 8 6 25 2"]
        deriveBattleStats_exact [of "ranged 15 4 20 15 20 3"]
  by (simp add: ranged_def melee_def BattleDerivedStats.equality)

section \<open>War machine arming\<close>

text \<open>
  C3. The arming function is a function of its input alone (equal inputs give equal
  outputs), and its output is exactly: attack \<open>round (attack * 2)\<close>, defense
  \<open>round (defense * 2)\<close>, health \<open>round (health * 2.5)\<close>, speed \<open>round (speed * 0.5)\<close>,
  range 35 whatever range the input has, and range damage \<open>round (attack' * 1.2)\<close> for the
  new attack \<open>attack'\<close>.
\<close>

theorem calculateArmedWarMachineStats_exact:
  "calculateArmedWarMachineStats stats =
     \<lparr>cs_attack = Math_round (cs_attack stats * 2),
      cs_defense = Math_round (cs_defense stats * 2),
      cs_health = Math_round (cs_health stats * (5 / 2)),
      cs_speed = Math_round (cs_speed stats * (1 / 2)),
      cs_range = Some 35,
      cs_rangeDamage = Some (Math_round (Math_round (cs_attack stats * 2) * (6 / 5)))\<rparr>
   \<and> cs_range (calculateArmedWarMachineStats (stats\<lparr>cs_range := r\<rparr>)) = Some 35"
  by (simp add: calculateArmedWarMachineStats_def Let_def)

text \<open>Arming with Warriors (attack 8, defense 6, health 25, speed 2).\<close>

theorem calculateArmedWarMachineStats_exact_witness:
  "calculateArmedWarMachineStats (melee 8 6 25 2) =
     \<lparr>cs_attack = 16, cs_defense = 12, cs_health = 63, cs_speed = 1,
      cs_range = Some 35, cs_rangeDamage = Some 19\<rparr>"
  using calculateArmedWarMachineStats_exact [of "melee 8 6 25 2"]
  by (simp add: melee_def Math_round_def)

section \<open>Placement zones\<close>

lemma zone_bounds:
  "zone_x ZONE_ATTACKER = 0" "zone_width ZONE_ATTACKER = 360"
  "zone_x ZONE_NEUTRAL = 360" "zone_width ZONE_NEUTRAL = 120"
  "zone_x ZONE_DEFENDER = 480" "zone_width ZONE_DEFENDER = 720"
  by (simp_all add: ZONE_ATTACKER_def ZONE_NEUTRAL_def ZONE_DEFENDER_def MAP_WIDTH_def)

lemma pointInZone_team:
  "pointInZone x y (getZoneForTeam team) \<longleftrightarrow>
     (if team = Attacker then 0 \<le> x \<and> x \<le> 360 else 480 \<le> x \<and> x \<le> 1200)
     \<and> 0 \<le> y \<and> y \<le> 700"
  by (simp add: pointInZone_def getZoneForTeam_def zone_bounds MAP_HEIGHT_def)

lemma spawnPack_outside:
  "\<not> pointInZone x y (getZoneForTeam team) \<Longrightarrow> spawnPack dm x y team type = Inr dm"
  by (simp add: spawnPack_def Let_def)

text \<open>
  C6, as the spec states it, fails on the left border of the strip: \<open>pointInZone\<close>
  compares with \<open>\<le>\<close> at both ends of a zone, so \<open>x = 360\<close> is a point of the attacker
  zone, and a Warrior pack dropped there is created (at \<open>x = 352\<close>, after clamping).
\<close>

theorem neutral_strip_border_counterexample:
  "(360::number) \<le> 360 \<and> (360::number) < 480
   \<and> pointInZone 360 100 (getZoneForTeam Attacker)
   \<and> spawnPack newDeployManager 360 100 Attacker (Regular WARRIOR) =
       Inr (newDeployManager
         \<lparr>packs := [(1, \<lparr>dpk_id = 1, dpk_team = Attacker, dpk_type = Regular WARRIOR,
                         dpk_size = 20, dpk_sprite_x = 352, dpk_sprite_y = 100,
                         dpk_range = 18, dpk_isRanged = False,
                         dpk_armedWarMachine = None\<rparr>)],
          nextPackId := 2\<rparr>)"
  by (simp add: pointInZone_def spawnPack_def Let_def getTeamUnitCount_def newDeployManager_def
      PACK_SIZE_def MAX_UNITS_def clampToZone_def Clamp_def getZoneForTeam_def zone_bounds
      MAP_HEIGHT_def createDeployPack_def melee_def deriveBattleStats_def rangeToPixels_def
      DEFAULT_MELEE_RANGE_def speedToPixelsPerSecond_def MELEE_COOLDOWN_MS_def)

text \<open>
  C6, amended. For every point whose x coordinate lies strictly inside the strip,
  \<open>360 < x < 480\<close>, and for both teams, the point is outside the team's zone and
  \<open>spawnPack\<close> returns without changing the manager, whatever the unit type and whatever
  packs are already placed. (The right border \<open>x = 480\<close> belongs to the defender zone, as
  the half-open interval of the spec has it.)
\<close>

theorem neutral_strip_interior_rejected:
  assumes "360 < x" and "x < 480"
  shows "\<not> pointInZone x y (getZoneForTeam team) \<and> spawnPack dm x y team type = Inr dm"
proof -
  have "\<not> pointInZone x y (getZoneForTeam team)"
    using assms by (simp add: pointInZone_team)
  then show ?thesis by (simp add: spawnPack_outside)
qed

theorem neutral_strip_interior_rejected_witness:
  "(360::number) < 400 \<and> (400::number) < 480
   \<and> \<not> pointInZone 400 100 (getZoneForTeam Attacker)
   \<and> \<not> pointInZone 400 100 (getZoneForTeam Defender)
   \<and> spawnPack newDeployManager 400 100 Attacker (Regular WARRIOR) = Inr newDeployManager
   \<and> spawnPack newDeployManager 400 100 Defender (Regular DWARF) = Inr newDeployManager"
  using neutral_strip_interior_rejected [of 400 100 Attacker newDeployManager "Regular WARRIOR"]
        neutral_strip_interior_rejected [of 400 100 Defender newDeployManager "Regular DWARF"]
  by simp

section \<open>Arming a war machine\<close>

lemma regular_in_catalog: "\<exists>stats. unitCombatStats (Regular n) = Some stats"
  by (cases n) simp_all

lemma catalog_range_positive:
  "unitCombatStats type = Some stats \<Longrightarrow> cs_range stats = Some r \<Longrightarrow> 0 < r"
  by (erule unitCombatStats.elims) (auto simp: melee_def ranged_def)

lemma armWarMachine_not_regular:
  "\<not> isRegularUnit (dpk_type armingPack) \<Longrightarrow>
     armWarMachine dm warMachine armingPack = Inr (dm, warMachine)"
  by (simp add: armWarMachine_def)

lemma armWarMachine_ranged:
  assumes "unitCombatStats (dpk_type armingPack) = Some stats" and "cs_range stats = Some r"
  shows "armWarMachine dm warMachine armingPack = Inr (dm, warMachine)"
  using assms catalog_range_positive [OF assms]
  by (simp add: armWarMachine_def)

lemma armWarMachine_small:
  assumes "dpk_size armingPack < PACK_SIZE"
  shows "armWarMachine dm warMachine armingPack = Inr (dm, warMachine)"
proof (cases "dpk_type armingPack")
  case (Regular n)
  obtain stats where "unitCombatStats (Regular n) = Some stats"
    using regular_in_catalog by blast
  with Regular assms show ?thesis by (simp add: armWarMachine_def)
qed (simp_all add: armWarMachine_def)

text \<open>
  C7. For every war-machine pack and every candidate pack, arming fails when the candidate
  holds fewer than 20 units, or is of a Regular type with a base range, or is of a Hero or
  WarMachine type; the call then returns with the manager (its map of packs, hence the
  candidate pack, its selection and its arming mode) and the war machine as they were.
\<close>

theorem armWarMachine_precondition_failure:
  assumes "dpk_size armingPack < 20
     \<or> (isRegularUnit (dpk_type armingPack) \<and>
        (\<exists>stats r. unitCombatStats (dpk_type armingPack) = Some stats \<and> cs_range stats = Some r))
     \<or> isHeroType (dpk_type armingPack)
     \<or> isWarMachine (dpk_type armingPack)"
  shows "armWarMachine dm warMachine armingPack = Inr (dm, warMachine)"
proof -
  consider "dpk_size armingPack < PACK_SIZE"
    | stats r where "unitCombatStats (dpk_type armingPack) = Some stats" "cs_range stats = Some r"
    | "\<not> isRegularUnit (dpk_type armingPack)"
    using assms by (cases "dpk_type armingPack") (auto simp: PACK_SIZE_def)
  then show ?thesis
  proof cases
    case 1
    then show ?thesis by (rule armWarMachine_small)
  next
    case 2
    then show ?thesis by (rule armWarMachine_ranged)
  next
    case 3
    then show ?thesis by (rule armWarMachine_not_regular)
  qed
qed

text \<open>
  A pack of 19 Warriors, a full pack of Elves (range 20), a Fighter and a Ballista as
  candidates: each leaves the war machine \<open>wm\<close> and the manager untouched.
\<close>

theorem armWarMachine_precondition_failure_witness:
  "(\<forall>wm dm.
      armWarMachine dm wm
        \<lparr>dpk_id = 2, dpk_team = Attacker, dpk_type = Regular WARRIOR, dpk_size = 19,
         dpk_sprite_x = 100, dpk_sprite_y = 100, dpk_range = 18, dpk_isRanged = False,
         dpk_armedWarMachine = None\<rparr> = Inr (dm, wm))
   \<and> (\<forall>wm dm.
      armWarMachine dm wm
        \<lparr>dpk_id = 2, dpk_team = Attacker, dpk_type = Regular ELF, dpk_size = 20,
         dpk_sprite_x = 100, dpk_sprite_y = 100, dpk_range = 100, dpk_isRanged = True,
         dpk_armedWarMachine = None\<rparr> = Inr (dm, wm))
   \<and> (\<forall>wm dm.
      armWarMachine dm wm
        \<lparr>dpk_id = 2, dpk_team = Attacker, dpk_type = Hero FIGHTER, dpk_size = 1,
         dpk_sprite_x = 100, dpk_sprite_y = 100, dpk_range = 10, dpk_isRanged = False,
         dpk_armedWarMachine = None\<rparr> = Inr (dm, wm))
   \<and> (\<forall>wm dm.
      armWarMachine dm wm
        \<lparr>dpk_id = 2, dpk_team = Attacker, dpk_type = WarMachine BALLISTA, dpk_size = 1,
         dpk_sprite_x = 100, dpk_sprite_y = 100, dpk_range = 18, dpk_isRanged = False,
         dpk_armedWarMachine = None\<rparr> = Inr (dm, wm))"
proof (intro conjI allI)
  fix wm dm
  show "armWarMachine dm wm
        \<lparr>dpk_id = 2, dpk_team = Attacker, dpk_type = Regular WARRIOR, dpk_size = 19,
         dpk_sprite_x = 100, dpk_sprite_y = 100, dpk_range = 18, dpk_isRanged = False,
         dpk_armedWarMachine = None\<rparr> = Inr (dm, wm)"
    by (rule armWarMachine_precondition_failure) simp
  show "armWarMachine dm wm
        \<lparr>dpk_id = 2, dpk_team = Attacker, dpk_type = Regular ELF, dpk_size = 20,
         dpk_sprite_x = 100, dpk_sprite_y = 100, dpk_range = 100, dpk_isRanged = True,
         dpk_armedWarMachine = None\<rparr> = Inr (dm, wm)"
    by (rule armWarMachine_precondition_failure) (simp add: ranged_def)
  show "armWarMachine dm wm
        \<lparr>dpk_id = 2, dpk_team = Attacker, dpk_type = Hero FIGHTER, dpk_size = 1,
         dpk_sprite_x = 100, dpk_sprite_y = 100, dpk_range = 10, dpk_isRanged = False,
         dpk_armedWarMachine = None\<rparr> = Inr (dm, wm)"
    by (rule armWarMachine_precondition_failure) simp
  show "armWarMachine dm wm
        \<lparr>dpk_id = 2, dpk_team = Attacker, dpk_type = WarMachine BALLISTA, dpk_size = 1,
         dpk_sprite_x = 100, dpk_sprite_y = 100, dpk_range = 18, dpk_isRanged = False,
         dpk_armedWarMachine = None\<rparr> = Inr (dm, wm)"
    by (rule armWarMachine_precondition_failure) simp
qed

section \<open>Auto-resolve\<close>

lemma newSet_acc:
  "distinct acc \<Longrightarrow>
     distinct (foldl (\<lambda>acc v. if v \<in> set acc then acc else acc @ [v]) acc vs)
     \<and> set (foldl (\<lambda>acc v. if v \<in> set acc then acc else acc @ [v]) acc vs) = set acc \<union> set vs"
  by (induction vs arbitrary: acc) auto

lemma length_newSet: "length (newSet vs) = card (set vs)"
proof -
  have "distinct (newSet vs)" and "set (newSet vs) = set vs"
    using newSet_acc [of "[]" vs] by (simp_all add: newSet_def)
  then show ?thesis
    using distinct_card [of "newSet vs"] by simp
qed

lemma getTeamUnitCount_foldl:
  "foldl (\<lambda>count pack. if dpk_team pack = team then count + dpk_size pack else count) a ps =
     a + sum_list (map dpk_size (filter (\<lambda>p. dpk_team p = team) ps))"
  by (induction ps arbitrary: a) auto

lemma getTeamUnitCount_sum:
  "getTeamUnitCount dm team =
     sum_list (map dpk_size (filter (\<lambda>p. dpk_team p = team) (getPacks dm)))"
  by (simp add: getTeamUnitCount_def getPacks_def getTeamUnitCount_foldl)

lemma no_units_no_packs:
  assumes "\<forall>p\<in>set (scenePacks bs). 0 < dpk_size p" and "sceneTeamUnitCount bs team = 0"
  shows "filter (\<lambda>p. dpk_team p = team) (scenePacks bs) = []"
proof (cases "deployManager bs")
  case None
  then show ?thesis by (simp add: scenePacks_def)
next
  case (Some dm)
  with assms have "\<forall>p\<in>set (filter (\<lambda>p. dpk_team p = team) (getPacks dm)). dpk_size p = 0"
    by (auto simp: sceneTeamUnitCount_def getTeamUnitCount_sum)
  moreover have "\<forall>p\<in>set (filter (\<lambda>p. dpk_team p = team) (getPacks dm)). 0 < dpk_size p"
    using assms(1) Some by (auto simp: scenePacks_def)
  ultimately have "set (filter (\<lambda>p. dpk_team p = team) (getPacks dm)) = {}"
    by fastforce
  with Some show ?thesis by (simp add: scenePacks_def)
qed

text \<open>
  Every pack that \<open>spawnPack\<close> places holds at least one unit, and arming keeps it so:
  the hypothesis of the theorem below on the sizes of the packs holds in every state that
  deployment reaches.
\<close>

lemma update_values: "snd ` set (AList.update k v al) \<subseteq> insert v (snd ` set al)"
  by (induction al) auto

lemma spawnPack_sizes_positive:
  assumes "\<forall>p\<in>set (getPacks dm). 0 < dpk_size p"
    and "spawnPack dm x y team type = Inr dm'"
  shows "\<forall>p\<in>set (getPacks dm'). 0 < dpk_size p"
proof (cases "dm' = dm")
  case True
  with assms(1) show ?thesis by simp
next
  case False
  with assms(2) obtain pack dm1 where c: "createDeployPack dm (fst (clampToZone x y (getZoneForTeam team)))
        (snd (clampToZone x y (getZoneForTeam team))) team type
        (if isHeroType type \<or> isWarMachine type then 1 else PACK_SIZE) = Inr (pack, dm1)"
    and dm': "dm' = dm1\<lparr>packs := AList.update (dpk_id pack) pack (packs dm1)\<rparr>"
    by (auto simp: spawnPack_def Let_def split: if_splits sum.splits prod.splits)
  from c have "0 < dpk_size pack" and "packs dm1 = packs dm"
    by (auto simp: createDeployPack_def Let_def PACK_SIZE_def split: option.splits)
  then have "set (getPacks dm') \<subseteq> insert pack (set (getPacks dm))"
    using update_values [of "dpk_id pack" pack "packs dm"]
    by (simp add: dm' getPacks_def)
  with \<open>0 < dpk_size pack\<close> assms(1) show ?thesis
    by auto
qed

lemma armWarMachine_sizes_positive:
  assumes "\<forall>p\<in>set (getPacks dm). 0 < dpk_size p" and "0 < dpk_size warMachine"
    and "armWarMachine dm warMachine armingPack = Inr (dm', warMachine')"
  shows "\<forall>p\<in>set (getPacks dm'). 0 < dpk_size p"
proof (cases "dm' = dm")
  case True
  with assms(1) show ?thesis by simp
next
  case False
  with assms(3) obtain stats where dm': "dm' = removePack
      (dm\<lparr>packs := map (\<lambda>(k, p). if k = dpk_id warMachine then (k, warMachine') else (k, p))
          (packs dm)\<rparr>) armingPack"
    and wm': "warMachine' = warMachine
      \<lparr>dpk_armedWarMachine :=
         Some \<lparr>armedWith = dpk_type armingPack,
               combatStats = calculateArmedWarMachineStats stats\<rparr>,
       dpk_range := rangeToPixels (cs_range (calculateArmedWarMachineStats stats)),
       dpk_isRanged := True\<rparr>"
    by (auto simp: armWarMachine_def Let_def split: if_splits option.splits)
  have wm: "0 < dpk_size warMachine'"
    using assms(2) by (simp add: wm')
  have sub: "set (AList.delete k al) \<subseteq> set al" for k and al :: "(nat \<times> DeployPack) list"
    by (auto simp: AList.delete_eq)
  have "packs dm' = AList.delete (dpk_id armingPack)
      (map (\<lambda>(k, p). if k = dpk_id warMachine then (k, warMachine') else (k, p)) (packs dm))"
    unfolding dm' by (simp add: removePack_def Let_def clearSelection_def exitArmingMode_def)
  then have "set (packs dm') \<subseteq>
      set (map (\<lambda>(k, p). if k = dpk_id warMachine then (k, warMachine') else (k, p)) (packs dm))"
    by (simp only: sub)
  then have "p = warMachine' \<or> p \<in> set (getPacks dm)" if "p \<in> set (getPacks dm')" for p
    using that by (fastforce simp: getPacks_def split: if_splits)
  with wm assms(1) show ?thesis
    by blast
qed

lemma autoResolveBattle_side_empty:
  assumes "filter (\<lambda>p. dpk_team p = Attacker) (scenePacks bs) = []
     \<or> filter (\<lambda>p. dpk_team p = Defender) (scenePacks bs) = []"
  shows "autoResolveBattle bs = Some (Inr (None, bs))"
  using assms by (auto simp: autoResolveBattle_def Let_def)

lemma autoResolveBattle_mixed:
  assumes "length (newSet (map dpk_type (filter (\<lambda>p. dpk_team p = Attacker) (scenePacks bs)))) \<noteq> 1
     \<or> length (newSet (map dpk_type (filter (\<lambda>p. dpk_team p = Defender) (scenePacks bs)))) \<noteq> 1"
  shows "autoResolveBattle bs = Some (Inr (None, bs))"
  using assms by (auto simp: autoResolveBattle_def Let_def split: list.splits)

lemma autoResolveBattle_armed:
  assumes "list_ex (\<lambda>pack. isWarMachine (dpk_type pack) \<and> dpk_armedWarMachine pack \<noteq> None)
     (scenePacks bs)"
  shows "autoResolveBattle bs = Some (Inr (None, bs))"
  using assms by (auto simp: autoResolveBattle_def Let_def split: list.splits)

text \<open>
  C4. For every scene (in the deploy phase, and in the battle phase as well) whose packs
  are as \<open>spawnPack\<close> makes them, each of at least one unit, \<open>autoResolveBattle\<close>
  returns \<open>null\<close> and leaves the scene as it was whenever a side has no unit deployed, or
  a side holds packs of more than one unit type, or a pack is an armed war machine.
\<close>

theorem autoResolveBattle_precondition_failure:
  assumes "\<forall>p\<in>set (scenePacks bs). 0 < dpk_size p"
    and "sceneTeamUnitCount bs Attacker = 0 \<or> sceneTeamUnitCount bs Defender = 0
      \<or> 1 < card (dpk_type ` {p \<in> set (scenePacks bs). dpk_team p = Attacker})
      \<or> 1 < card (dpk_type ` {p \<in> set (scenePacks bs). dpk_team p = Defender})
      \<or> (\<exists>p\<in>set (scenePacks bs). isWarMachine (dpk_type p) \<and> dpk_armedWarMachine p \<noteq> None)"
  shows "autoResolveBattle bs = Some (Inr (None, bs))"
proof -
  have types: "length (newSet (map dpk_type (filter (\<lambda>p. dpk_team p = team) (scenePacks bs)))) =
      card (dpk_type ` {p \<in> set (scenePacks bs). dpk_team p = team})" for team
    by (simp add: length_newSet)
  consider (empty) team where "sceneTeamUnitCount bs team = 0"
    | (mixed) team where "1 < card (dpk_type ` {p \<in> set (scenePacks bs). dpk_team p = team})"
    | (armed) "\<exists>p\<in>set (scenePacks bs). isWarMachine (dpk_type p) \<and> dpk_armedWarMachine p \<noteq> None"
    using assms(2) by blast
  then show ?thesis
  proof cases
    case empty
    then have "filter (\<lambda>p. dpk_team p = team) (scenePacks bs) = []"
      using assms(1) by (simp add: no_units_no_packs)
    then show ?thesis
      by (cases team) (simp_all add: autoResolveBattle_side_empty)
  next
    case mixed
    then have "length (newSet (map dpk_type (filter (\<lambda>p. dpk_team p = team) (scenePacks bs)))) \<noteq> 1"
      by (simp add: types)
    then show ?thesis
      by (cases team) (simp_all add: autoResolveBattle_mixed)
  next
    case armed
    then show ?thesis
      by (intro autoResolveBattle_armed) (simp add: list_ex_iff)
  qed
qed

text \<open>
  No Defender pack; Warriors and Dwarves on the attacking side; an armed Ballista. Each
  scene is in the deploy phase and each call returns \<open>null\<close> with the scene unchanged.
\<close>

theorem autoResolveBattle_precondition_failure_witness:
  "phase (sceneWith [placedPack 1 Attacker (Regular WARRIOR) 20]) = deploy
   \<and> autoResolveBattle (sceneWith [placedPack 1 Attacker (Regular WARRIOR) 20]) =
       Some (Inr (None, sceneWith [placedPack 1 Attacker (Regular WARRIOR) 20]))
   \<and> autoResolveBattle
        (sceneWith [placedPack 1 Attacker (Regular WARRIOR) 20,
                    placedPack 2 Attacker (Regular DWARF) 20,
                    placedPack 3 Defender (Regular ORC) 20]) =
       Some (Inr (None,
         sceneWith [placedPack 1 Attacker (Regular WARRIOR) 20,
                    placedPack 2 Attacker (Regular DWARF) 20,
                    placedPack 3 Defender (Regular ORC) 20]))
   \<and> autoResolveBattle
        (sceneWith [(placedPack 1 Attacker (WarMachine BALLISTA) 1)
                      \<lparr>dpk_armedWarMachine :=
                         Some \<lparr>armedWith = Regular WARRIOR,
                               combatStats = calculateArmedWarMachineStats (melee 8 6 25 2)\<rparr>\<rparr>,
                    placedPack 2 Defender (Regular ORC) 20]) =
       Some (Inr (None,
         sceneWith [(placedPack 1 Attacker (WarMachine BALLISTA) 1)
                      \<lparr>dpk_armedWarMachine :=
                         Some \<lparr>armedWith = Regular WARRIOR,
                               combatStats = calculateArmedWarMachineStats (melee 8 6 25 2)\<rparr>\<rparr>,
                    placedPack 2 Defender (Regular ORC) 20]))"
proof (intro conjI)
  show "phase (sceneWith [placedPack 1 Attacker (Regular WARRIOR) 20]) = deploy"
    by (simp add: sceneWith_def newBattleScene_def)
  show "autoResolveBattle (sceneWith [placedPack 1 Attacker (Regular WARRIOR) 20]) =
       Some (Inr (None, sceneWith [placedPack 1 Attacker (Regular WARRIOR) 20]))"
    by (rule autoResolveBattle_precondition_failure)
      (simp_all add: sceneWith_def newBattleScene_def newDeployManager_def scenePacks_def
        getPacks_def sceneTeamUnitCount_def getTeamUnitCount_def placedPack_def)
  have two: "dpk_type ` {p \<in> set [placedPack 1 Attacker (Regular WARRIOR) 20,
                    placedPack 2 Attacker (Regular DWARF) 20,
                    placedPack 3 Defender (Regular ORC) 20]. dpk_team p = Attacker}
      = {Regular WARRIOR, Regular DWARF}"
  proof -
    have eq: "dpk_type ` {p \<in> set ps. dpk_team p = Attacker} =
        set (map dpk_type (filter (\<lambda>p. dpk_team p = Attacker) ps))" for ps
      by auto
    show ?thesis
      unfolding eq by (simp add: placedPack_def)
  qed
  show "autoResolveBattle
        (sceneWith [placedPack 1 Attacker (Regular WARRIOR) 20,
                    placedPack 2 Attacker (Regular DWARF) 20,
                    placedPack 3 Defender (Regular ORC) 20]) =
       Some (Inr (None,
         sceneWith [placedPack 1 Attacker (Regular WARRIOR) 20,
                    placedPack 2 Attacker (Regular DWARF) 20,
                    placedPack 3 Defender (Regular ORC) 20]))"
  proof (rule autoResolveBattle_precondition_failure)
    show "\<forall>p\<in>set (scenePacks (sceneWith [placedPack 1 Attacker (Regular WARRIOR) 20,
                    placedPack 2 Attacker (Regular DWARF) 20,
                    placedPack 3 Defender (Regular ORC) 20])). 0 < dpk_size p"
      by (simp add: sceneWith_def newBattleScene_def newDeployManager_def scenePacks_def
          getPacks_def placedPack_def)
    have "scenePacks (sceneWith [placedPack 1 Attacker (Regular WARRIOR) 20,
                    placedPack 2 Attacker (Regular DWARF) 20,
                    placedPack 3 Defender (Regular ORC) 20]) =
          [placedPack 1 Attacker (Regular WARRIOR) 20,
                    placedPack 2 Attacker (Regular DWARF) 20,
                    placedPack 3 Defender (Regular ORC) 20]"
      by (simp add: sceneWith_def newBattleScene_def newDeployManager_def scenePacks_def
          getPacks_def)
    then show "sceneTeamUnitCount (sceneWith [placedPack 1 Attacker (Regular WARRIOR) 20,
                    placedPack 2 Attacker (Regular DWARF) 20,
                    placedPack 3 Defender (Regular ORC) 20]) Attacker = 0
      \<or> sceneTeamUnitCount (sceneWith [placedPack 1 Attacker (Regular WARRIOR) 20,
                    placedPack 2 Attacker (Regular DWARF) 20,
                    placedPack 3 Defender (Regular ORC) 20]) Defender = 0
      \<or> 1 < card (dpk_type ` {p \<in> set (scenePacks (sceneWith [placedPack 1 Attacker (Regular WARRIOR) 20,
                    placedPack 2 Attacker (Regular DWARF) 20,
                    placedPack 3 Defender (Regular ORC) 20])). dpk_team p = Attacker})
      \<or> 1 < card (dpk_type ` {p \<in> set (scenePacks (sceneWith [placedPack 1 Attacker (Regular WARRIOR) 20,
                    placedPack 2 Attacker (Regular DWARF) 20,
                    placedPack 3 Defender (Regular ORC) 20])). dpk_team p = Defender})
      \<or> (\<exists>p\<in>set (scenePacks (sceneWith [placedPack 1 Attacker (Regular WARRIOR) 20,
                    placedPack 2 Attacker (Regular DWARF) 20,
                    placedPack 3 Defender (Regular ORC) 20])).
            isWarMachine (dpk_type p) \<and> dpk_armedWarMachine p \<noteq> None)"
      using two by simp
  qed
  show "autoResolveBattle
        (sceneWith [(placedPack 1 Attacker (WarMachine BALLISTA) 1)
                      \<lparr>dpk_armedWarMachine :=
                         Some \<lparr>armedWith = Regular WARRIOR,
                               combatStats = calculateArmedWarMachineStats (melee 8 6 25 2)\<rparr>\<rparr>,
                    placedPack 2 Defender (Regular ORC) 20]) =
       Some (Inr (None,
         sceneWith [(placedPack 1 Attacker (WarMachine BALLISTA) 1)
                      \<lparr>dpk_armedWarMachine :=
                         Some \<lparr>armedWith = Regular WARRIOR,
                               combatStats = calculateArmedWarMachineStats (melee 8 6 25 2)\<rparr>\<rparr>,
                    placedPack 2 Defender (Regular ORC) 20]))"
    by (rule autoResolveBattle_precondition_failure)
      (simp_all add: sceneWith_def newBattleScene_def newDeployManager_def scenePacks_def
        getPacks_def placedPack_def)
qed

section \<open>Numbers that binary64 holds exactly\<close>

lemma bitLength_bounds:
  "0 < n \<Longrightarrow> 2 ^ (bitLength n - 1) \<le> n \<and> n < 2 ^ bitLength n"
proof (induction n rule: bitLength.induct)
  case (1 n)
  show ?case
  proof (cases "n = 1")
    case True
    then show ?thesis
      by (simp add: bitLength.simps [of 1] bitLength.simps [of 0])
  next
    case False
    with "1.prems" have half: "0 < n div 2"
      by simp
    then have ih: "2 ^ (bitLength (n div 2) - 1) \<le> n div 2 \<and> n div 2 < 2 ^ bitLength (n div 2)"
      using "1.IH" "1.prems" by simp
    have pos: "0 < bitLength (n div 2)"
      using half by (simp add: bitLength.simps [of "n div 2"])
    have len: "bitLength n = Suc (bitLength (n div 2))"
      using "1.prems" by (simp add: bitLength.simps [of n])
    have "2 ^ bitLength (n div 2) = (2::int) * 2 ^ (bitLength (n div 2) - 1)"
      using pos by (cases "bitLength (n div 2)") simp_all
    then have "2 ^ bitLength (n div 2) \<le> 2 * (n div 2)"
      using ih by simp
    also have "\<dots> \<le> n"
      by simp
    finally have lower: "2 ^ (bitLength n - 1) \<le> n"
      by (simp add: len)
    have "n < 2 * (n div 2) + 2"
      by simp
    also have "\<dots> \<le> 2 * 2 ^ bitLength (n div 2)"
      using ih by simp
    finally have "n < 2 ^ bitLength n"
      by (simp add: len)
    with lower show ?thesis
      by simp
  qed
qed

lemma roundHalfEven_of_int [simp]: "roundHalfEven (of_int m) = m"
  by (simp add: roundHalfEven_def)

lemma bin64_zero [simp]: "bin64 0 = 0"
  by (simp add: bin64_def)

text \<open>An integer below \<open>2 ^ 53\<close> in absolute value is a binary64 number.\<close>

lemma bin64_of_int:
  assumes "\<bar>n\<bar> < 2 ^ 53"
  shows "bin64 (of_int n) = of_int n"
proof (cases "n = 0")
  case True
  then show ?thesis
    by simp
next
  case False
  define a where "a = bitLength \<bar>n\<bar>"
  have pos: "0 < \<bar>n\<bar>"
    using False by simp
  have bounds: "2 ^ (a - 1) \<le> \<bar>n\<bar>" "\<bar>n\<bar> < 2 ^ a"
    using bitLength_bounds [OF pos] by (simp_all add: a_def)
  have a_pos: "0 < a"
    using pos by (simp add: a_def bitLength.simps [of "\<bar>n\<bar>"])
  have "(2::int) ^ (a - 1) < 2 ^ 53"
    using bounds(1) assms by linarith
  then have "a - 1 < 53"
    by (rule power_less_imp_less_exp [rotated]) simp
  then have a_le: "a \<le> 53"
    by simp
  have one: "bitLength 1 = 1"
    by (simp add: bitLength.simps [of 1] bitLength.simps [of 0])
  have q: "quotient_of \<bar>of_int n :: rat\<bar> = (\<bar>n\<bar>, 1)"
    by (simp flip: of_int_abs)
  have "(2::rat) ^ (a - 1) \<le> of_int \<bar>n\<bar>"
    using bounds(1) by (metis of_int_le_iff of_int_numeral of_int_power)
  then have e: "binExponent (of_int n) = int a - 1"
    using a_pos by (simp add: binExponent_def q one pow2_def a_def [symmetric] nat_diff_distrib)
  have ulp: "pow2 (int a - 53) = 1 / 2 ^ (53 - a)"
    using a_pos a_le by (auto simp add: pow2_def nat_diff_distrib)
  have quot: "of_int n / (1 / 2 ^ (53 - a)) = (of_int (n * 2 ^ (53 - a)) :: rat)"
    by simp
  have "bin64 (of_int n) =
      of_int (roundHalfEven (of_int n / (1 / 2 ^ (53 - a)))) * (1 / 2 ^ (53 - a))"
    using False a_pos by (simp add: bin64_def e ulp Let_def)
  also have "\<dots> = of_int (n * 2 ^ (53 - a)) * (1 / 2 ^ (53 - a))"
    by (simp only: quot roundHalfEven_of_int)
  also have "\<dots> = of_int n"
    by simp
  finally show ?thesis .
qed

lemma bin64_exact:
  assumes "v \<in> \<int>" and "\<bar>v\<bar> < 2 ^ 53"
  shows "bin64 v = v"
proof -
  obtain n where v: "v = of_int n"
    using assms(1) by (rule Ints_cases)
  have "(of_int \<bar>n\<bar> :: rat) < of_int (2 ^ 53)"
    using assms(2) by (simp add: v)
  then have "\<bar>n\<bar> < 2 ^ 53"
    by (simp only: of_int_less_iff)
  then show ?thesis
    unfolding v by (rule bin64_of_int)
qed

lemma bin64_of_nat:
  assumes "n < 2 ^ 53"
  shows "bin64 (of_nat n) = of_nat n"
proof -
  have "(of_nat n :: rat) < of_nat (2 ^ 53)"
    using assms by (simp only: of_nat_less_iff)
  then show ?thesis
    by (intro bin64_exact) simp_all
qed

text \<open>
  For evaluation: a whole number below \<open>2 ^ 53\<close> in absolute value is returned as it is,
  without the search for its exponent.
\<close>

lemma bin64_code [code]:
  "bin64 v =
     (if of_int \<lfloor>v\<rfloor> = v \<and> \<bar>v\<bar> < 9007199254740992 then v
      else if v = 0 then 0
      else
        (let e = max (binExponent v) (- 1022);
             ulp = pow2 (e - 52)
         in of_int (roundHalfEven (v / ulp)) * ulp))"
proof (cases "of_int \<lfloor>v\<rfloor> = v \<and> \<bar>v\<bar> < 9007199254740992")
  case True
  then have "v \<in> \<int>" and "\<bar>v\<bar> < 2 ^ 53"
    by (simp_all add: Ints_def) (metis range_eqI)
  then have "bin64 v = v"
    by (rule bin64_exact)
  with True show ?thesis
    by simp
next
  case False
  then show ?thesis
    unfolding bin64_def by (simp only: if_False)
qed

section \<open>The resolver: building the packs\<close>

lemma in_catalog_iff: "unitCombatStats type \<noteq> None \<longleftrightarrow> \<not> isWarMachine type"
  by (cases type rule: unitCombatStats.cases) simp_all

lemma buildUnits_length:
  "buildUnits type team startX startId is = Inr us \<Longrightarrow> length us = length is"
  by (induction "is" arbitrary: us) (auto split: sum.splits)

lemma createPack_length:
  "createPack type team n startX startId = Inr us \<Longrightarrow> length us = nat \<lceil>n\<rceil>"
  by (simp add: createPack_def buildUnits_length)

lemma createPack_throws:
  assumes "unitCombatStats type = None" and "0 < n"
  shows "createPack type team n startX startId = Inl (MissingCombatStats type)"
proof -
  have "0 < \<lceil>n\<rceil>"
    using assms(2) by simp
  then obtain k where k: "nat \<lceil>n\<rceil> = Suc k"
    by (cases "nat \<lceil>n\<rceil>") simp_all
  have "[0..<Suc k] = 0 # [1..<Suc k]"
    by (simp add: upt_rec)
  then show ?thesis
    using assms(1) by (simp add: createPack_def k buildUnit_def)
qed

lemma createPack_empty:
  assumes "n \<le> 0"
  shows "createPack type team n startX startId = Inr []"
proof -
  have "\<lceil>n\<rceil> \<le> 0"
    using assms by (simp add: ceiling_le_iff)
  then show ?thesis
    by (simp add: createPack_def)
qed

lemma buildUnits_in_catalog:
  "unitCombatStats type \<noteq> None \<Longrightarrow> \<exists>us. buildUnits type team startX startId is = Inr us"
  by (induction "is") (auto simp: buildUnit_def Let_def split: sum.splits)

lemma buildUnits_error:
  "buildUnits type team startX startId is = Inl e \<Longrightarrow> unitCombatStats type = None"
  using buildUnits_in_catalog [of type team startX startId "is"]
  by (cases "unitCombatStats type") auto

lemma initialState_in_catalog:
  assumes "unitCombatStats (attackerType config) \<noteq> None"
    and "unitCombatStats (defenderType config) \<noteq> None"
  shows "\<exists>s0. initialState config = Inr s0"
proof -
  obtain as where as: "createPack (attackerType config) Attacker (effAttackerCount config) 0 1 = Inr as"
    using buildUnits_in_catalog [OF assms(1)] unfolding createPack_def by blast
  obtain ds where "createPack (defenderType config) Defender (effDefenderCount config)
      (effStartDistance config) (1 + length as) = Inr ds"
    using buildUnits_in_catalog [OF assms(2)] unfolding createPack_def by blast
  with as show ?thesis by (simp add: initialState_def)
qed

lemma initialState_shape:
  assumes "initialState config = Inr s0"
  shows "length (st_attackers s0) = nat \<lceil>effAttackerCount config\<rceil>"
    and "length (st_defenders s0) = nat \<lceil>effDefenderCount config\<rceil>"
    and "st_time s0 = 0"
  using assms
  by (auto simp: initialState_def Let_def createPack_length split: sum.splits)

section \<open>The resolver: one tick\<close>

lemma length_putUnit [simp]: "length (putUnit u us) = length us"
  by (simp add: putUnit_def)

lemma stepUnit_length: "length (snd (stepUnit unit enemies time deltaMs)) = length enemies"
  by (simp add: stepUnit_def Let_def split: option.splits prod.splits)

lemma stepUnit_lengthD:
  "stepUnit unit enemies time deltaMs = (unit', enemies') \<Longrightarrow> length enemies' = length enemies"
  using stepUnit_length [of unit enemies time deltaMs] by simp

lemma stepOrdered_length:
  "length (fst (stepOrdered time timeStep unit teams)) = length (fst teams)
   \<and> length (snd (stepOrdered time timeStep unit teams)) = length (snd teams)"
  by (cases teams)
    (auto simp: stepOrdered_def Let_def dest: stepUnit_lengthD split: option.splits prod.splits)

lemma fold_stepOrdered_length:
  "length (fst (fold (stepOrdered time timeStep) ordered teams)) = length (fst teams)
   \<and> length (snd (fold (stepOrdered time timeStep) ordered teams)) = length (snd teams)"
  by (induction ordered arbitrary: teams) (simp_all add: stepOrdered_length)

lemma simTick_time [simp]: "st_time (simTick timeStep s) = bin64 (st_time s + timeStep)"
  by (simp add: simTick_def Let_def split: prod.splits)

lemma simTick_length:
  "length (st_attackers (simTick timeStep s)) \<le> length (st_attackers s)"
  "length (st_defenders (simTick timeStep s)) \<le> length (st_defenders s)"
proof -
  obtain as ds where f: "fold (stepOrdered (st_time s) timeStep)
      (sort_key su_id (st_attackers s @ st_defenders s)) (st_attackers s, st_defenders s) = (as, ds)"
    by fastforce
  have "length as = length (st_attackers s)" and "length ds = length (st_defenders s)"
    using fold_stepOrdered_length [of "st_time s" timeStep
        "sort_key su_id (st_attackers s @ st_defenders s)" "(st_attackers s, st_defenders s)"] f
    by simp_all
  moreover have "length (filter (\<lambda>unit. su_hp unit > 0) as) \<le> length as"
    and "length (filter (\<lambda>unit. su_hp unit > 0) ds) \<le> length ds"
    by simp_all
  ultimately show "length (st_attackers (simTick timeStep s)) \<le> length (st_attackers s)"
    and "length (st_defenders (simTick timeStep s)) \<le> length (st_defenders s)"
    using f by (simp_all add: simTick_def Let_def)
qed

section \<open>The resolver: the loop\<close>

text \<open>
  The time after \<open>n\<close> turns, for a whole time step, while it stays below \<open>2 ^ 53\<close>: the
  additions are exact.
\<close>

lemma funpow_simTick_time:
  assumes "st_time s = 0" and "timeStep \<in> \<nat>" and "of_nat n * timeStep < 2 ^ 53"
  shows "st_time ((simTick timeStep ^^ n) s) = of_nat n * timeStep"
  using assms(3)
proof (induction n)
  case 0
  show ?case
    by (simp add: assms(1))
next
  case (Suc n)
  obtain d where d: "timeStep = of_nat d"
    using assms(2) by (rule Nats_cases)
  have "of_nat n * timeStep \<le> of_nat (Suc n) * timeStep"
    by (simp add: d algebra_simps)
  then have "st_time ((simTick timeStep ^^ n) s) = of_nat n * timeStep"
    using Suc by simp
  then have "st_time ((simTick timeStep ^^ Suc n) s) = bin64 (of_nat n * timeStep + timeStep)"
    by simp
  also have "of_nat n * timeStep + timeStep = of_nat (Suc n * d)"
    by (simp add: d algebra_simps)
  also have "bin64 (of_nat (Suc n * d)) = of_nat (Suc n * d)"
  proof (rule bin64_of_nat)
    have "(of_nat (Suc n * d) :: rat) < of_nat (2 ^ 53)"
      using Suc.prems by (simp add: d algebra_simps)
    then show "Suc n * d < 2 ^ 53"
      by (simp only: of_nat_less_iff)
  qed
  also have "of_nat (Suc n * d) = of_nat (Suc n) * timeStep"
    by (simp add: d algebra_simps)
  finally show ?case .
qed

lemma funpow_simTick_length:
  "length (st_attackers ((simTick timeStep ^^ n) s)) \<le> length (st_attackers s)
   \<and> length (st_defenders ((simTick timeStep ^^ n) s)) \<le> length (st_defenders s)"
proof (induction n)
  case 0
  show ?case by simp
next
  case (Suc n)
  then show ?case
    using simTick_length [of timeStep "(simTick timeStep ^^ n) s"] by simp
qed

text \<open>The loop that stops after \<open>n\<close> turns returns the state after \<open>n\<close> turns of its body.\<close>

lemma simLoop_funpow:
  assumes "\<forall>k<n. simRunning maxDuration ((simTick timeStep ^^ k) s)"
    and "\<not> simRunning maxDuration ((simTick timeStep ^^ n) s)"
  shows "simLoop maxDuration timeStep s = Some ((simTick timeStep ^^ n) s)"
  using assms
proof (induction n arbitrary: s)
  case 0
  then show ?case by (simp add: simLoop.simps)
next
  case (Suc n)
  have run: "simRunning maxDuration s"
    using Suc.prems(1) by (metis funpow_0 zero_less_Suc)
  have "\<forall>k<n. simRunning maxDuration ((simTick timeStep ^^ k) (simTick timeStep s))"
    using Suc.prems(1) by (metis Suc_less_eq funpow_Suc_right o_apply)
  moreover have "\<not> simRunning maxDuration ((simTick timeStep ^^ n) (simTick timeStep s))"
    using Suc.prems(2) by (simp add: funpow_swap1)
  ultimately have "simLoop maxDuration timeStep (simTick timeStep s) =
      Some ((simTick timeStep ^^ n) (simTick timeStep s))"
    by (rule Suc.IH)
  with run show ?case
    by (subst simLoop.simps) (simp add: funpow_swap1)
qed

text \<open>The loop returns only a state that its body reaches, and in which its condition fails.\<close>

lemma simLoop_returns:
  assumes "simLoop maxDuration timeStep s = Some s'"
  shows "\<exists>n. s' = (simTick timeStep ^^ n) s \<and> \<not> simRunning maxDuration s'"
proof (rule simLoop.raw_induct
    [where P = "\<lambda>M dt s s'. \<exists>n. s' = (simTick dt ^^ n) s \<and> \<not> simRunning M s'", OF _ assms],
    goal_cases)
  case (1 loop M dt s y)
  show ?case
  proof (cases "simRunning M s")
    case True
    with 1(2) have "loop M dt (simTick dt s) = Some y"
      by simp
    then obtain n where "y = (simTick dt ^^ n) (simTick dt s)" and "\<not> simRunning M y"
      using 1(1) by blast
    then have "y = (simTick dt ^^ Suc n) s \<and> \<not> simRunning M y"
      by (simp add: funpow_swap1)
    then show ?thesis by blast
  next
    case False
    with 1(2) have "y = (simTick dt ^^ 0) s \<and> \<not> simRunning M y"
      by simp
    then show ?thesis by blast
  qed
qed

text \<open>
  With a time step that is a positive whole number, and a cap that the time passes below
  \<open>2 ^ 53\<close>, the time is past the cap after \<open>\<lfloor>cap / step\<rfloor> + 1\<close> turns at the latest, so the
  loop stops.
\<close>

lemma simLoop_terminates:
  assumes "timeStep \<in> \<nat>" and "0 < timeStep" and "maxDuration + timeStep < 2 ^ 53"
    and "st_time s = 0"
  shows "\<exists>n. n \<le> (if maxDuration < 0 then 0 else nat \<lfloor>maxDuration / timeStep\<rfloor> + 1)
     \<and> (\<forall>k<n. simRunning maxDuration ((simTick timeStep ^^ k) s))
     \<and> \<not> simRunning maxDuration ((simTick timeStep ^^ n) s)
     \<and> simLoop maxDuration timeStep s = Some ((simTick timeStep ^^ n) s)
     \<and> st_time ((simTick timeStep ^^ n) s) = of_nat n * timeStep"
proof -
  define N where "N = (if maxDuration < 0 then 0 else nat \<lfloor>maxDuration / timeStep\<rfloor> + 1)"
  have small: "of_nat N * timeStep < 2 ^ 53"
  proof (cases "maxDuration < 0")
    case True
    then show ?thesis by (simp add: N_def)
  next
    case False
    then have "0 \<le> \<lfloor>maxDuration / timeStep\<rfloor>"
      using assms(2) by simp
    then have "of_nat N = of_int \<lfloor>maxDuration / timeStep\<rfloor> + (1::rat)"
      using False by (simp add: N_def)
    then have "of_nat N \<le> maxDuration / timeStep + 1"
      by linarith
    then have "of_nat N * timeStep \<le> (maxDuration / timeStep + 1) * timeStep"
      using assms(2) by (simp only: mult_le_cancel_right_pos)
    also have "\<dots> = maxDuration + timeStep"
      using assms(2) by (simp add: algebra_simps)
    finally show ?thesis
      using assms(3) by simp
  qed
  have time: "st_time ((simTick timeStep ^^ k) s) = of_nat k * timeStep" if "k \<le> N" for k
  proof -
    have "of_nat k * timeStep \<le> of_nat N * timeStep"
      using that assms(2) by simp
    then show ?thesis
      using small by (intro funpow_simTick_time assms) simp
  qed
  have "maxDuration < st_time ((simTick timeStep ^^ N) s)"
  proof (cases "maxDuration < 0")
    case True
    then show ?thesis by (simp add: N_def assms(4))
  next
    case False
    then have "0 \<le> \<lfloor>maxDuration / timeStep\<rfloor>"
      using assms(2) by simp
    then have "of_nat N = of_int \<lfloor>maxDuration / timeStep\<rfloor> + (1::rat)"
      using False by (simp add: N_def)
    then have "maxDuration / timeStep < of_nat N"
      by linarith
    then have "maxDuration < of_nat N * timeStep"
      using assms(2) by (simp add: pos_divide_less_eq)
    then show ?thesis
      by (simp add: time)
  qed
  then have stop: "\<not> simRunning maxDuration ((simTick timeStep ^^ N) s)"
    by (simp add: simRunning_def)
  define n where "n = (LEAST k. \<not> simRunning maxDuration ((simTick timeStep ^^ k) s))"
  have n_stop: "\<not> simRunning maxDuration ((simTick timeStep ^^ n) s)"
    unfolding n_def using stop by (rule LeastI)
  have n_le: "n \<le> N"
    unfolding n_def using stop by (rule Least_le)
  have n_run: "\<forall>k<n. simRunning maxDuration ((simTick timeStep ^^ k) s)"
    unfolding n_def using not_less_Least by blast
  from n_run n_stop have "simLoop maxDuration timeStep s = Some ((simTick timeStep ^^ n) s)"
    by (rule simLoop_funpow)
  with n_le n_run n_stop time [OF n_le] show ?thesis
    unfolding N_def by blast
qed

section \<open>Termination and the number of turns of the loop\<close>

text \<open>
  C9, as the spec states it, fails in the bound: the loop tests \<open>time \<le> maxDurationMs\<close>,
  so with a cap of 100 and a step of 50 its body runs at the times 0, 50 and 100, three
  turns where \<open>100 / 50 = 2\<close>, and the battle ends at 150. (One Warrior and one Dwarf, 300
  apart, do not meet in that time.)
\<close>

theorem loop_turns_counterexample:
  "(0::number) < 50
   \<and> (\<exists>s0. initialState (duel (Regular WARRIOR) (Regular DWARF) 300 100 50) = Inr s0
        \<and> simRunning 100 s0
        \<and> simRunning 100 (simTick 50 s0)
        \<and> simRunning 100 (simTick 50 (simTick 50 s0)))
   \<and> simulateBattle (duel (Regular WARRIOR) (Regular DWARF) 300 100 50) =
       Some (Inr \<lparr>winner = Draw, remaining_attacker = 1, remaining_defender = 1,
                  durationMs = 150\<rparr>)
   \<and> \<not> ((3::number) \<le> 100 / 50)"
proof (intro conjI)
  obtain s0 where s0: "initialState (duel (Regular WARRIOR) (Regular DWARF) 300 100 50) = Inr s0"
    using initialState_in_catalog [of "duel (Regular WARRIOR) (Regular DWARF) 300 100 50"]
    by (auto simp: duel_def)
  have "(case initialState (duel (Regular WARRIOR) (Regular DWARF) 300 100 50) of
           Inl e \<Rightarrow> False
         | Inr s \<Rightarrow> simRunning 100 s \<and> simRunning 100 (simTick 50 s)
                    \<and> simRunning 100 (simTick 50 (simTick 50 s)))"
    by code_simp
  with s0 show "\<exists>s0. initialState (duel (Regular WARRIOR) (Regular DWARF) 300 100 50) = Inr s0
        \<and> simRunning 100 s0
        \<and> simRunning 100 (simTick 50 s0)
        \<and> simRunning 100 (simTick 50 (simTick 50 s0))"
    by simp
  show "simulateBattle (duel (Regular WARRIOR) (Regular DWARF) 300 100 50) =
       Some (Inr \<lparr>winner = Draw, remaining_attacker = 1, remaining_defender = 1,
                  durationMs = 150\<rparr>)"
    by code_simp
qed simp_all

text \<open>
  With a fractional time step the running sum of the time is rounded at every turn, and
  the bound \<open>\<lfloor>maxDurationMs / timeStepMs\<rfloor> + 1\<close> on the turns is lost. With the binary64
  number \<open>0.1\<close> (which is \<open>3602879701896397 / 2 ^ 55\<close>) as the step, the time after eight
  turns is the binary64 number \<open>0.7999999999999999\<close> (which is
  \<open>7205759403792793 / 2 ^ 53\<close>); with that number as the cap, the time is not above the cap
  after eight turns, and the loop enters a ninth while both sides stand, although
  \<open>\<lfloor>cap / step\<rfloor> + 1 = 8\<close>.
\<close>

lemma fractional_step_turns:
  assumes "st_time s = 0"
  shows "st_time ((simTick (3602879701896397 / 2 ^ 55) ^^ 8) s) = 7205759403792793 / 2 ^ 53"
    and "nat \<lfloor>(7205759403792793 / 2 ^ 53) / (3602879701896397 / 2 ^ 55 :: number)\<rfloor> + 1 = 8"
proof -
  have sums:
    "bin64 (0 + 3602879701896397 / 2 ^ 55) = 3602879701896397 / 2 ^ 55"
    "bin64 (3602879701896397 / 2 ^ 55 + 3602879701896397 / 2 ^ 55) = 3602879701896397 / 2 ^ 54"
    "bin64 (3602879701896397 / 2 ^ 54 + 3602879701896397 / 2 ^ 55) = 1351079888211149 / 2 ^ 52"
    "bin64 (1351079888211149 / 2 ^ 52 + 3602879701896397 / 2 ^ 55) = 3602879701896397 / 2 ^ 53"
    "bin64 (3602879701896397 / 2 ^ 53 + 3602879701896397 / 2 ^ 55) = 1 / 2"
    "bin64 (1 / 2 + 3602879701896397 / 2 ^ 55) = 5404319552844595 / 2 ^ 53"
    "bin64 (5404319552844595 / 2 ^ 53 + 3602879701896397 / 2 ^ 55) = 3152519739159347 / 2 ^ 52"
    "bin64 (3152519739159347 / 2 ^ 52 + 3602879701896397 / 2 ^ 55) = 7205759403792793 / 2 ^ 53"
    by code_simp+
  have "(8::nat) = Suc (Suc (Suc (Suc (Suc (Suc (Suc (Suc 0)))))))"
    by simp
  then show "st_time ((simTick (3602879701896397 / 2 ^ 55) ^^ 8) s) =
      7205759403792793 / 2 ^ 53"
    by (simp only: funpow.simps o_apply id_apply simTick_time assms sums)
  show "nat \<lfloor>(7205759403792793 / 2 ^ 53) / (3602879701896397 / 2 ^ 55 :: number)\<rfloor> + 1 = 8"
    by code_simp
qed

text \<open>
  C9, amended. For every configuration whose \<open>timeStepMs\<close> is a positive whole number,
  with \<open>maxDurationMs + timeStepMs < 2 ^ 53\<close> (where the additions \<open>time += timeStepMs\<close>
  are exact in binary64), the call ends: it throws while building the packs, or its loop
  stops after \<open>n\<close> turns of its body, where \<open>n\<close> is at most
  \<open>\<lfloor>maxDurationMs / timeStepMs\<rfloor> + 1\<close> (1801 at 90000 and 50; no turn at all for a
  negative cap), and returns the state those \<open>n\<close> turns reach, at the time
  \<open>n * timeStepMs\<close>. If both sides are non-empty in that state, the cap has elapsed and
  the winner is \<open>'draw'\<close>.
\<close>

theorem simulateBattle_terminates_bounded:
  assumes "effTimeStepMs config \<in> \<nat>" and "0 < effTimeStepMs config"
    and "effMaxDurationMs config + effTimeStepMs config < 2 ^ 53"
  shows "(\<exists>e. initialState config = Inl e \<and> simulateBattle config = Some (Inl e))
    \<or> (\<exists>s0 n.
          initialState config = Inr s0
          \<and> n \<le> (if effMaxDurationMs config < 0 then 0
                  else nat \<lfloor>effMaxDurationMs config / effTimeStepMs config\<rfloor> + 1)
          \<and> (\<forall>k<n. simRunning (effMaxDurationMs config) ((simTick (effTimeStepMs config) ^^ k) s0))
          \<and> \<not> simRunning (effMaxDurationMs config) ((simTick (effTimeStepMs config) ^^ n) s0)
          \<and> simulateBattle config =
              Some (Inr (simResult ((simTick (effTimeStepMs config) ^^ n) s0)))
          \<and> durationMs (simResult ((simTick (effTimeStepMs config) ^^ n) s0)) =
              of_nat n * effTimeStepMs config
          \<and> (st_attackers ((simTick (effTimeStepMs config) ^^ n) s0) \<noteq> []
               \<and> st_defenders ((simTick (effTimeStepMs config) ^^ n) s0) \<noteq> []
             \<longrightarrow> winner (simResult ((simTick (effTimeStepMs config) ^^ n) s0)) = Draw
                 \<and> effMaxDurationMs config
                     < durationMs (simResult ((simTick (effTimeStepMs config) ^^ n) s0))))"
proof (cases "initialState config")
  case (Inl e)
  then show ?thesis by (simp add: simulateBattle_def)
next
  case (Inr s0)
  define M where "M = effMaxDurationMs config"
  define dt where "dt = effTimeStepMs config"
  have t0: "st_time s0 = 0"
    using Inr by (rule initialState_shape)
  obtain n where n: "n \<le> (if M < 0 then 0 else nat \<lfloor>M / dt\<rfloor> + 1)"
    and run: "\<forall>k<n. simRunning M ((simTick dt ^^ k) s0)"
    and stop: "\<not> simRunning M ((simTick dt ^^ n) s0)"
    and loop: "simLoop M dt s0 = Some ((simTick dt ^^ n) s0)"
    and time: "st_time ((simTick dt ^^ n) s0) = of_nat n * dt"
    using simLoop_terminates [of dt M s0] assms t0 unfolding dt_def M_def by blast
  have res: "simulateBattle config = Some (Inr (simResult ((simTick dt ^^ n) s0)))"
    using Inr loop by (simp add: simulateBattle_def M_def dt_def)
  have dur: "durationMs (simResult ((simTick dt ^^ n) s0)) = of_nat n * dt"
    by (simp add: simResult_def time)
  have draw: "winner (simResult ((simTick dt ^^ n) s0)) = Draw
      \<and> M < durationMs (simResult ((simTick dt ^^ n) s0))"
    if "st_attackers ((simTick dt ^^ n) s0) \<noteq> []" and "st_defenders ((simTick dt ^^ n) s0) \<noteq> []"
    using that stop by (simp add: simResult_def simRunning_def)
  show ?thesis
    using Inr n run stop res dur draw unfolding M_def dt_def by blast
qed

text \<open>The duel of the counterexample: the call returns a draw at 150, after three turns.\<close>

theorem simulateBattle_terminates_bounded_witness:
  "effTimeStepMs (duel (Regular WARRIOR) (Regular DWARF) 300 100 50) \<in> \<nat>
   \<and> (0::number) < effTimeStepMs (duel (Regular WARRIOR) (Regular DWARF) 300 100 50)
   \<and> effMaxDurationMs (duel (Regular WARRIOR) (Regular DWARF) 300 100 50)
       + effTimeStepMs (duel (Regular WARRIOR) (Regular DWARF) 300 100 50) < 2 ^ 53
   \<and> (\<exists>n \<le> 3. simulateBattle (duel (Regular WARRIOR) (Regular DWARF) 300 100 50) =
         Some (Inr \<lparr>winner = Draw, remaining_attacker = 1, remaining_defender = 1,
                    durationMs = of_nat n * 50\<rparr>))"
proof -
  have step: "effTimeStepMs (duel (Regular WARRIOR) (Regular DWARF) 300 100 50) \<in> \<nat>"
    "(0::number) < effTimeStepMs (duel (Regular WARRIOR) (Regular DWARF) 300 100 50)"
    "effMaxDurationMs (duel (Regular WARRIOR) (Regular DWARF) 300 100 50)
       + effTimeStepMs (duel (Regular WARRIOR) (Regular DWARF) 300 100 50) < 2 ^ 53"
    by (simp_all add: effTimeStepMs_def effMaxDurationMs_def duel_def)
  have val: "simulateBattle (duel (Regular WARRIOR) (Regular DWARF) 300 100 50) =
       Some (Inr \<lparr>winner = Draw, remaining_attacker = 1, remaining_defender = 1,
                  durationMs = 150\<rparr>)"
    by code_simp
  from simulateBattle_terminates_bounded [OF step] val
  obtain s0 n where "n \<le> (if effMaxDurationMs (duel (Regular WARRIOR) (Regular DWARF) 300 100 50) < 0
        then 0
        else nat \<lfloor>effMaxDurationMs (duel (Regular WARRIOR) (Regular DWARF) 300 100 50)
                    / effTimeStepMs (duel (Regular WARRIOR) (Regular DWARF) 300 100 50)\<rfloor> + 1)"
    and "simulateBattle (duel (Regular WARRIOR) (Regular DWARF) 300 100 50) =
       Some (Inr (simResult
         ((simTick (effTimeStepMs (duel (Regular WARRIOR) (Regular DWARF) 300 100 50)) ^^ n) s0)))"
    and "durationMs (simResult
         ((simTick (effTimeStepMs (duel (Regular WARRIOR) (Regular DWARF) 300 100 50)) ^^ n) s0)) =
       of_nat n * effTimeStepMs (duel (Regular WARRIOR) (Regular DWARF) 300 100 50)"
    by auto
  then have "n \<le> 3"
    and "simulateBattle (duel (Regular WARRIOR) (Regular DWARF) 300 100 50) =
       Some (Inr \<lparr>winner = Draw, remaining_attacker = 1, remaining_defender = 1,
                  durationMs = of_nat n * 50\<rparr>)"
    using val by (simp_all add: effMaxDurationMs_def effTimeStepMs_def duel_def)
  with step show ?thesis by blast
qed

section \<open>Survivors\<close>

text \<open>
  C10, as the spec states it, fails where a count is not a whole number, or is negative:
  the configuration gives the counts as numbers, and \<open>createPack\<close> builds a unit for every
  \<open>i = 0, 1, \<dots>\<close> below the count. With an attacker count of 1.5 two Warriors are built,
  and both remain after the one turn that a cap of 0 allows: \<open>remaining.attacker = 2\<close> is
  above 1.5. With an attacker count of -1 no attacker is built, and \<open>remaining.attacker = 0\<close>
  is above -1.
\<close>

theorem remaining_exceeds_count_counterexample:
  "simulateBattle (skirmish (Regular WARRIOR) (3 / 2) (Regular DWARF) 1 300 0 50) =
     Some (Inr \<lparr>winner = Draw, remaining_attacker = 2, remaining_defender = 1,
                durationMs = 50\<rparr>)
   \<and> effAttackerCount (skirmish (Regular WARRIOR) (3 / 2) (Regular DWARF) 1 300 0 50) = 3 / 2
   \<and> \<not> (of_nat 2 \<le> (3 / 2 :: number))
   \<and> simulateBattle (skirmish (Regular WARRIOR) (- 1) (Regular DWARF) 1 300 0 50) =
     Some (Inr \<lparr>winner = Won Defender, remaining_attacker = 0, remaining_defender = 1,
                durationMs = 0\<rparr>)
   \<and> effAttackerCount (skirmish (Regular WARRIOR) (- 1) (Regular DWARF) 1 300 0 50) = - 1
   \<and> \<not> (of_nat 0 \<le> (- 1 :: number))"
proof (intro conjI)
  show "simulateBattle (skirmish (Regular WARRIOR) (3 / 2) (Regular DWARF) 1 300 0 50) =
     Some (Inr \<lparr>winner = Draw, remaining_attacker = 2, remaining_defender = 1,
                durationMs = 50\<rparr>)"
    by code_simp
  show "simulateBattle (skirmish (Regular WARRIOR) (- 1) (Regular DWARF) 1 300 0 50) =
     Some (Inr \<lparr>winner = Won Defender, remaining_attacker = 0, remaining_defender = 1,
                durationMs = 0\<rparr>)"
    by code_simp
qed (simp_all add: effAttackerCount_def skirmish_def)

text \<open>
  C10, amended. Whatever the configuration, a result that \<open>simulateBattle\<close> returns has
  \<open>remaining.attacker\<close> (a length, so not negative) at most the number of attackers that
  were built, which is \<open>\<lceil>attackerCount\<rceil>\<close> for a positive effective \<open>attackerCount\<close> and 0
  otherwise, and \<open>remaining.defender\<close> at most the number of defenders that were built,
  likewise: the loop only filters the two arrays. So \<open>remaining.attacker\<close> is at most the
  effective \<open>attackerCount\<close> where that is a whole number, zero or more, and likewise for
  the defenders.
\<close>

theorem simulateBattle_remaining_bounded:
  assumes "simulateBattle config = Some (Inr r)"
  shows "0 \<le> remaining_attacker r
    \<and> remaining_attacker r \<le> nat \<lceil>effAttackerCount config\<rceil>
    \<and> 0 \<le> remaining_defender r
    \<and> remaining_defender r \<le> nat \<lceil>effDefenderCount config\<rceil>
    \<and> (effAttackerCount config \<in> \<nat>
         \<longrightarrow> of_nat (remaining_attacker r) \<le> effAttackerCount config)
    \<and> (effDefenderCount config \<in> \<nat>
         \<longrightarrow> of_nat (remaining_defender r) \<le> effDefenderCount config)"
proof -
  obtain s0 s where s0: "initialState config = Inr s0"
    and loop: "simLoop (effMaxDurationMs config) (effTimeStepMs config) s0 = Some s"
    and res: "r = simResult s"
    using assms by (auto simp: simulateBattle_def split: sum.splits option.splits)
  obtain n where "s = (simTick (effTimeStepMs config) ^^ n) s0"
    using simLoop_returns [OF loop] by blast
  then have "length (st_attackers s) \<le> length (st_attackers s0)"
    and "length (st_defenders s) \<le> length (st_defenders s0)"
    using funpow_simTick_length [where timeStep = "effTimeStepMs config" and n = n and s = s0]
    by simp_all
  then have built: "remaining_attacker r \<le> nat \<lceil>effAttackerCount config\<rceil>"
    "remaining_defender r \<le> nat \<lceil>effDefenderCount config\<rceil>"
    using initialState_shape [OF s0] by (simp_all add: res simResult_def)
  have whole: "of_nat k \<le> c" if le: "k \<le> nat \<lceil>c\<rceil>" and c: "c \<in> \<nat>"
    for k :: nat and c :: number
  proof -
    obtain m where m: "c = of_nat m"
      using c by (rule Nats_cases)
    have "k \<le> m"
      using le by (simp add: m)
    then show ?thesis
      by (simp add: m)
  qed
  show ?thesis
    using built whole by simp
qed

text \<open>
  Two Orcs (the pack size, as no attacker count is given) against three Warriors, at
  distance 0 with a step of 450: both Orcs and no Warrior remain. And the one and a half
  Warriors of the counterexample: the two that were built remain.
\<close>

theorem simulateBattle_remaining_bounded_witness:
  "simulateBattle
     \<lparr>attackerType = Regular ORC, defenderType = Regular WARRIOR, packSize = Some 2,
      attackerCount = None, defenderCount = Some 3, maxDurationMs = Some 90000,
      timeStepMs = Some 450, startDistance = Some 0\<rparr> =
     Some (Inr \<lparr>winner = Won Attacker, remaining_attacker = 2, remaining_defender = 0,
                durationMs = 3150\<rparr>)
   \<and> effAttackerCount
     \<lparr>attackerType = Regular ORC, defenderType = Regular WARRIOR, packSize = Some 2,
      attackerCount = None, defenderCount = Some 3, maxDurationMs = Some 90000,
      timeStepMs = Some 450, startDistance = Some 0\<rparr> = 2
   \<and> effDefenderCount
     \<lparr>attackerType = Regular ORC, defenderType = Regular WARRIOR, packSize = Some 2,
      attackerCount = None, defenderCount = Some 3, maxDurationMs = Some 90000,
      timeStepMs = Some 450, startDistance = Some 0\<rparr> = 3
   \<and> (2::number) \<in> \<nat> \<and> (3::number) \<in> \<nat>
   \<and> simulateBattle (skirmish (Regular WARRIOR) (3 / 2) (Regular DWARF) 1 300 0 50) =
     Some (Inr \<lparr>winner = Draw, remaining_attacker = 2, remaining_defender = 1,
                durationMs = 50\<rparr>)
   \<and> nat \<lceil>effAttackerCount (skirmish (Regular WARRIOR) (3 / 2) (Regular DWARF) 1 300 0 50)\<rceil> = 2"
proof -
  let ?c = "\<lparr>attackerType = Regular ORC, defenderType = Regular WARRIOR, packSize = Some 2,
      attackerCount = None, defenderCount = Some 3, maxDurationMs = Some 90000,
      timeStepMs = Some 450, startDistance = Some 0\<rparr>"
  let ?d = "skirmish (Regular WARRIOR) (3 / 2) (Regular DWARF) 1 300 0 50"
  have val: "simulateBattle ?c =
     Some (Inr \<lparr>winner = Won Attacker, remaining_attacker = 2, remaining_defender = 0,
                durationMs = 3150\<rparr>)"
    by code_simp
  have val': "simulateBattle ?d =
     Some (Inr \<lparr>winner = Draw, remaining_attacker = 2, remaining_defender = 1,
                durationMs = 50\<rparr>)"
    by code_simp
  have counts: "effAttackerCount ?c = 2" "effDefenderCount ?c = 3" "effAttackerCount ?d = 3 / 2"
    by (simp_all add: effAttackerCount_def effDefenderCount_def effPackSize_def skirmish_def)
  have built: "nat \<lceil>3 / 2 :: number\<rceil> = 2"
    by code_simp
  show ?thesis
    using simulateBattle_remaining_bounded [OF val] simulateBattle_remaining_bounded [OF val']
      val val'
    by (simp add: counts built)
qed

section \<open>Failures that are no-ops, and the one that throws\<close>

lemma spawnPack_over_capacity:
  assumes "MAX_UNITS <
      getTeamUnitCount dm team + (if isHeroType type \<or> isWarMachine type then 1 else PACK_SIZE)"
  shows "spawnPack dm x y team type = Inr dm"
  using assms by (simp add: spawnPack_def Let_def)

lemma createUnit_missing:
  "unitCombatStats type = None \<Longrightarrow> createUnit bs x y team type armedWarMachine = bs"
  by (simp add: createUnit_def)

lemma createPack_builds:
  assumes "unitCombatStats type = None \<longrightarrow> n \<le> 0"
  shows "\<exists>us. createPack type team n startX startId = Inr us"
proof (cases "unitCombatStats type")
  case None
  then show ?thesis
    using assms by (simp add: createPack_empty)
next
  case (Some stats)
  then show ?thesis
    using buildUnits_in_catalog [of type] unfolding createPack_def by simp
qed

lemma simulateBattle_builds:
  assumes "unitCombatStats (attackerType config) = None \<longrightarrow> effAttackerCount config \<le> 0"
    and "unitCombatStats (defenderType config) = None \<longrightarrow> effDefenderCount config \<le> 0"
  shows "simulateBattle config \<noteq> Some (Inl e)"
proof -
  obtain as where as:
    "createPack (attackerType config) Attacker (effAttackerCount config) 0 1 = Inr as"
    using createPack_builds [OF assms(1)] by blast
  obtain ds where "createPack (defenderType config) Defender (effDefenderCount config)
      (effStartDistance config) (1 + length as) = Inr ds"
    using createPack_builds [OF assms(2)] by blast
  with as show ?thesis
    by (simp add: simulateBattle_def initialState_def split: option.splits)
qed

lemma simulateBattle_in_catalog:
  assumes "unitCombatStats (attackerType config) \<noteq> None"
    and "unitCombatStats (defenderType config) \<noteq> None"
    and "effTimeStepMs config \<in> \<nat>" and "0 < effTimeStepMs config"
    and "effMaxDurationMs config + effTimeStepMs config < 2 ^ 53"
  shows "\<exists>r. simulateBattle config = Some (Inr r)"
proof -
  obtain s0 where s0: "initialState config = Inr s0"
    using initialState_in_catalog [OF assms(1,2)] by blast
  have "st_time s0 = 0"
    using s0 by (rule initialState_shape)
  then obtain n where "simLoop (effMaxDurationMs config) (effTimeStepMs config) s0 =
      Some ((simTick (effTimeStepMs config) ^^ n) s0)"
    using simLoop_terminates [OF assms(3,4,5)] by blast
  with s0 show "\<exists>r. simulateBattle config = Some (Inr r)"
    by (simp add: simulateBattle_def)
qed

lemma simulateBattle_throws_attacker:
  assumes "unitCombatStats (attackerType config) = None" and "0 < effAttackerCount config"
  shows "simulateBattle config = Some (Inl (MissingCombatStats (attackerType config)))"
  using createPack_throws [OF assms] by (simp add: simulateBattle_def initialState_def)

lemma simulateBattle_throws_defender:
  assumes "unitCombatStats (defenderType config) = None" and "0 < effDefenderCount config"
    and "unitCombatStats (attackerType config) = None \<longrightarrow> effAttackerCount config \<le> 0"
  shows "simulateBattle config = Some (Inl (MissingCombatStats (defenderType config)))"
proof -
  obtain as where
    "createPack (attackerType config) Attacker (effAttackerCount config) 0 1 = Inr as"
    using createPack_builds [OF assms(3)] by blast
  then show ?thesis
    using createPack_throws [OF assms(1,2)] by (simp add: simulateBattle_def initialState_def)
qed

text \<open>
  C5, as the spec states it, fails for a unit type that has no catalog entry: \<open>buildUnit\<close>
  throws \<open>Missing combat stats for unit type\<close>, and \<open>simulateBattle\<close> lets the error
  pass. The catalog has no entry for a war machine, so resolving a Ballista against a
  Warrior throws.
\<close>

theorem resolver_throws_counterexample:
  "unitCombatStats (WarMachine BALLISTA) = None
   \<and> buildUnit (WarMachine BALLISTA) Attacker 1 0 = Inl (MissingCombatStats (WarMachine BALLISTA))
   \<and> simulateBattle (duel (WarMachine BALLISTA) (Regular WARRIOR) 300 60000 50) =
       Some (Inl (MissingCombatStats (WarMachine BALLISTA)))"
proof (intro conjI)
  have "createPack (WarMachine BALLISTA) Attacker 1 0 1 =
      Inl (MissingCombatStats (WarMachine BALLISTA))"
    by (rule createPack_throws) simp_all
  then show "simulateBattle (duel (WarMachine BALLISTA) (Regular WARRIOR) 300 60000 50) =
       Some (Inl (MissingCombatStats (WarMachine BALLISTA)))"
    by (simp add: simulateBattle_def initialState_def duel_def effAttackerCount_def)
qed (simp_all add: buildUnit_def)

text \<open>
  C5, amended. A placement outside the team's zone, a placement that would exceed the
  capacity of 500, and an arming request that fails its precondition (a candidate pack of
  fewer than 20 units, or not of a Regular type, or of a type with a base range) return
  without change and without throwing; in the live scene \<open>createUnit\<close> returns without
  change for a unit type that has no catalog entry. The fast-forward resolver does not
  throw for unit types that have catalog entries (every Regular and every Hero type),
  and returns a result for them when \<open>timeStepMs\<close> is a positive whole number and
  \<open>maxDurationMs + timeStepMs < 2 ^ 53\<close>. For a unit type without a catalog entry (a war
  machine), on either side, it throws as soon as it builds a unit of that type: for the
  attackers' type when the attacker count is positive, and otherwise for the defenders'
  type when the defender count is positive. It throws in no other case.
\<close>

theorem failures_are_noops:
  "(\<not> pointInZone x y (getZoneForTeam team) \<longrightarrow> spawnPack dm x y team type = Inr dm)
   \<and> (MAX_UNITS <
        getTeamUnitCount dm team + (if isHeroType type \<or> isWarMachine type then 1 else PACK_SIZE)
      \<longrightarrow> spawnPack dm x y team type = Inr dm)
   \<and> (dpk_size armingPack < PACK_SIZE \<or> \<not> isRegularUnit (dpk_type armingPack)
        \<or> (\<exists>stats r. unitCombatStats (dpk_type armingPack) = Some stats
              \<and> cs_range stats = Some r)
      \<longrightarrow> armWarMachine dm warMachine armingPack = Inr (dm, warMachine))
   \<and> (unitCombatStats type = None \<longrightarrow> createUnit bs x y team type armedWarMachine = bs)
   \<and> (\<not> isWarMachine (attackerType config) \<and> \<not> isWarMachine (defenderType config)
      \<longrightarrow> (\<forall>e. simulateBattle config \<noteq> Some (Inl e))
          \<and> (effTimeStepMs config \<in> \<nat> \<and> 0 < effTimeStepMs config
               \<and> effMaxDurationMs config + effTimeStepMs config < 2 ^ 53
             \<longrightarrow> (\<exists>r. simulateBattle config = Some (Inr r))))
   \<and> (isWarMachine (attackerType config) \<and> 0 < effAttackerCount config
      \<longrightarrow> simulateBattle config = Some (Inl (MissingCombatStats (attackerType config))))
   \<and> (isWarMachine (defenderType config) \<and> 0 < effDefenderCount config
        \<and> (isWarMachine (attackerType config) \<longrightarrow> effAttackerCount config \<le> 0)
      \<longrightarrow> simulateBattle config = Some (Inl (MissingCombatStats (defenderType config))))
   \<and> ((isWarMachine (attackerType config) \<longrightarrow> effAttackerCount config \<le> 0)
        \<and> (isWarMachine (defenderType config) \<longrightarrow> effDefenderCount config \<le> 0)
      \<longrightarrow> (\<forall>e. simulateBattle config \<noteq> Some (Inl e)))"
proof (intro conjI impI allI)
  assume "dpk_size armingPack < PACK_SIZE \<or> \<not> isRegularUnit (dpk_type armingPack)
      \<or> (\<exists>stats r. unitCombatStats (dpk_type armingPack) = Some stats \<and> cs_range stats = Some r)"
  then show "armWarMachine dm warMachine armingPack = Inr (dm, warMachine)"
    using armWarMachine_small armWarMachine_not_regular armWarMachine_ranged by blast
next
  fix e
  assume "\<not> isWarMachine (attackerType config) \<and> \<not> isWarMachine (defenderType config)"
  then have "unitCombatStats (attackerType config) = None \<longrightarrow> effAttackerCount config \<le> 0"
    and "unitCombatStats (defenderType config) = None \<longrightarrow> effDefenderCount config \<le> 0"
    using in_catalog_iff by blast+
  then show "simulateBattle config \<noteq> Some (Inl e)"
    by (rule simulateBattle_builds)
next
  assume "\<not> isWarMachine (attackerType config) \<and> \<not> isWarMachine (defenderType config)"
    and step: "effTimeStepMs config \<in> \<nat> \<and> 0 < effTimeStepMs config
      \<and> effMaxDurationMs config + effTimeStepMs config < 2 ^ 53"
  then have "unitCombatStats (attackerType config) \<noteq> None"
    and "unitCombatStats (defenderType config) \<noteq> None"
    using in_catalog_iff by blast+
  then show "\<exists>r. simulateBattle config = Some (Inr r)"
    using step by (intro simulateBattle_in_catalog) simp_all
next
  assume a: "isWarMachine (attackerType config) \<and> 0 < effAttackerCount config"
  then have "unitCombatStats (attackerType config) = None"
    using in_catalog_iff [of "attackerType config"] by simp
  then show "simulateBattle config = Some (Inl (MissingCombatStats (attackerType config)))"
    using a by (intro simulateBattle_throws_attacker) simp_all
next
  assume d: "isWarMachine (defenderType config) \<and> 0 < effDefenderCount config
      \<and> (isWarMachine (attackerType config) \<longrightarrow> effAttackerCount config \<le> 0)"
  then have "unitCombatStats (defenderType config) = None"
    using in_catalog_iff [of "defenderType config"] by simp
  moreover have "unitCombatStats (attackerType config) = None \<longrightarrow> effAttackerCount config \<le> 0"
    using d in_catalog_iff [of "attackerType config"] by blast
  ultimately show "simulateBattle config = Some (Inl (MissingCombatStats (defenderType config)))"
    using d by (intro simulateBattle_throws_defender) simp_all
next
  fix e
  assume "(isWarMachine (attackerType config) \<longrightarrow> effAttackerCount config \<le> 0)
      \<and> (isWarMachine (defenderType config) \<longrightarrow> effDefenderCount config \<le> 0)"
  then have "unitCombatStats (attackerType config) = None \<longrightarrow> effAttackerCount config \<le> 0"
    and "unitCombatStats (defenderType config) = None \<longrightarrow> effDefenderCount config \<le> 0"
    using in_catalog_iff by blast+
  then show "simulateBattle config \<noteq> Some (Inl e)"
    by (rule simulateBattle_builds)
qed (simp_all add: spawnPack_outside spawnPack_over_capacity createUnit_missing)

text \<open>
  A drop in the neutral strip; a drop by an attacker who has 25 packs of 20; arming with
  19 Warriors; a Ballista created in the live scene; a duel of an Orc and a Warrior,
  which returns a result; a Ballista against a Warrior, and a Warrior against a Ballista,
  which throw; and no Ballista against a Warrior, which does not throw.
\<close>

theorem failures_are_noops_witness:
  "spawnPack newDeployManager 400 100 Attacker (Regular WARRIOR) = Inr newDeployManager
   \<and> getTeamUnitCount
       (newDeployManager
          \<lparr>packs := map (\<lambda>i. (i, placedPack i Attacker (Regular WARRIOR) 20)) [1..<26]\<rparr>)
       Attacker = 500
   \<and> spawnPack
       (newDeployManager
          \<lparr>packs := map (\<lambda>i. (i, placedPack i Attacker (Regular WARRIOR) 20)) [1..<26]\<rparr>)
       100 100 Attacker (Regular WARRIOR) =
     Inr (newDeployManager
          \<lparr>packs := map (\<lambda>i. (i, placedPack i Attacker (Regular WARRIOR) 20)) [1..<26]\<rparr>)
   \<and> armWarMachine newDeployManager (placedPack 1 Attacker (WarMachine BALLISTA) 1)
       (placedPack 2 Attacker (Regular WARRIOR) 19) =
     Inr (newDeployManager, placedPack 1 Attacker (WarMachine BALLISTA) 1)
   \<and> createUnit newBattleScene 100 100 Attacker (WarMachine BALLISTA) None = newBattleScene
   \<and> (\<exists>r. simulateBattle (duel (Regular ORC) (Regular WARRIOR) 0 60000 450) = Some (Inr r))
   \<and> simulateBattle (duel (WarMachine BALLISTA) (Regular WARRIOR) 300 60000 50) =
       Some (Inl (MissingCombatStats (WarMachine BALLISTA)))
   \<and> simulateBattle (duel (Regular WARRIOR) (WarMachine BALLISTA) 300 60000 50) =
       Some (Inl (MissingCombatStats (WarMachine BALLISTA)))
   \<and> (\<forall>e. simulateBattle (skirmish (WarMachine BALLISTA) 0 (Regular WARRIOR) 1 300 60000 50)
          \<noteq> Some (Inl e))"
proof -
  let ?full = "newDeployManager
          \<lparr>packs := map (\<lambda>i. (i, placedPack i Attacker (Regular WARRIOR) 20)) [1..<26]\<rparr>"
  let ?duel = "duel (Regular ORC) (Regular WARRIOR) 0 60000 450"
  have full: "getTeamUnitCount ?full Attacker = 500"
    by code_simp
  note noop = failures_are_noops
    [where dm = newDeployManager and x = 400 and y = 100 and team = Attacker
       and type = "Regular WARRIOR"]
    failures_are_noops
    [where dm = "?full" and x = 100 and y = 100 and team = Attacker and type = "Regular WARRIOR"]
    failures_are_noops
    [where dm = newDeployManager and warMachine = "placedPack 1 Attacker (WarMachine BALLISTA) 1"
       and armingPack = "placedPack 2 Attacker (Regular WARRIOR) 19"]
    failures_are_noops
    [where bs = newBattleScene and x = 100 and y = 100 and team = Attacker
       and type = "WarMachine BALLISTA" and armedWarMachine = None]
    failures_are_noops [where config = "?duel"]
    failures_are_noops
    [where config = "duel (WarMachine BALLISTA) (Regular WARRIOR) 300 60000 50"]
    failures_are_noops
    [where config = "duel (Regular WARRIOR) (WarMachine BALLISTA) 300 60000 50"]
    failures_are_noops
    [where config = "skirmish (WarMachine BALLISTA) 0 (Regular WARRIOR) 1 300 60000 50"]
  have "spawnPack newDeployManager 400 100 Attacker (Regular WARRIOR) = Inr newDeployManager"
    using noop(1) by (simp add: pointInZone_team)
  moreover have "spawnPack ?full 100 100 Attacker (Regular WARRIOR) = Inr ?full"
    using noop(2) full by (simp add: MAX_UNITS_def PACK_SIZE_def)
  moreover have "armWarMachine newDeployManager (placedPack 1 Attacker (WarMachine BALLISTA) 1)
       (placedPack 2 Attacker (Regular WARRIOR) 19) =
     Inr (newDeployManager, placedPack 1 Attacker (WarMachine BALLISTA) 1)"
    using noop(3) by (simp add: placedPack_def PACK_SIZE_def)
  moreover have "createUnit newBattleScene 100 100 Attacker (WarMachine BALLISTA) None =
      newBattleScene"
    using noop(4) by simp
  moreover have "\<exists>r. simulateBattle ?duel = Some (Inr r)"
    using noop(5) by (simp add: duel_def effTimeStepMs_def effMaxDurationMs_def)
  moreover have "simulateBattle (duel (WarMachine BALLISTA) (Regular WARRIOR) 300 60000 50) =
       Some (Inl (MissingCombatStats (WarMachine BALLISTA)))"
    using noop(6) by (simp add: duel_def effAttackerCount_def)
  moreover have "simulateBattle (duel (Regular WARRIOR) (WarMachine BALLISTA) 300 60000 50) =
       Some (Inl (MissingCombatStats (WarMachine BALLISTA)))"
    using noop(7) by (simp add: duel_def effDefenderCount_def)
  moreover have "\<forall>e. simulateBattle
      (skirmish (WarMachine BALLISTA) 0 (Regular WARRIOR) 1 300 60000 50) \<noteq> Some (Inl e)"
    using noop(8) by (simp add: skirmish_def effAttackerCount_def)
  ultimately show ?thesis
    using full by blast
qed

section \<open>The duel\<close>

lemma attack_due_Suc:
  fixes cd dt :: rat
  assumes "0 < cd" and "0 < dt" and m: "m = nat \<lceil>cd / dt\<rceil>"
  shows "1 \<le> m"
    and "cd \<le> of_nat (Suc j) * dt - of_nat (m * (j div m)) * dt \<longleftrightarrow> Suc j mod m = 0"
    and "\<not> cd \<le> of_nat (0::nat) * dt - of_nat (m * 0) * dt"
proof -
  have pos: "0 < cd / dt"
    using assms by simp
  then have c1: "1 \<le> \<lceil>cd / dt\<rceil>"
    by (simp add: Suc_le_eq)
  then show m1: "1 \<le> m"
    unfolding m by linarith
  have im: "int m = \<lceil>cd / dt\<rceil>"
    unfolding m using c1 by simp
  have "cd \<le> of_nat (Suc j) * dt - of_nat (m * (j div m)) * dt
      \<longleftrightarrow> cd \<le> (of_int (int (Suc j) - int (m * (j div m)))) * dt"
    by (simp add: algebra_simps)
  also have "\<dots> \<longleftrightarrow> cd / dt \<le> of_int (int (Suc j) - int (m * (j div m)))"
    using assms(2) by (simp add: pos_divide_le_eq)
  also have "\<dots> \<longleftrightarrow> \<lceil>cd / dt\<rceil> \<le> int (Suc j) - int (m * (j div m))"
    by (simp only: ceiling_le_iff)
  also have "\<dots> \<longleftrightarrow> m + m * (j div m) \<le> Suc j"
    unfolding im [symmetric] by linarith
  also have "\<dots> \<longleftrightarrow> Suc j mod m = 0"
  proof -
    have j: "j = m * (j div m) + j mod m"
      by simp
    have lt: "j mod m < m"
      using m1 by simp
    have "m + m * (j div m) \<le> Suc j \<longleftrightarrow> m \<le> Suc (j mod m)"
      using j by linarith
    also have "\<dots> \<longleftrightarrow> Suc (j mod m) = m"
      using lt by linarith
    also have "\<dots> \<longleftrightarrow> Suc j mod m = 0"
      using m1 by (simp add: mod_Suc)
    finally show ?thesis .
  qed
  finally show "cd \<le> of_nat (Suc j) * dt - of_nat (m * (j div m)) * dt \<longleftrightarrow> Suc j mod m = 0" .
  show "\<not> cd \<le> of_nat (0::nat) * dt - of_nat (m * 0) * dt"
    using assms(1) by simp
qed

lemma alive_iff_hits:
  fixes h dmg :: rat
  assumes "0 < dmg"
  shows "0 < h - of_nat i * dmg \<longleftrightarrow> i < nat \<lceil>h / dmg\<rceil>"
proof -
  have "0 < h - of_nat i * dmg \<longleftrightarrow> of_int (int i) < h / dmg"
    using assms by (simp add: pos_less_divide_eq)
  also have "\<dots> \<longleftrightarrow> int i < \<lceil>h / dmg\<rceil>"
    by (simp only: less_ceiling_iff)
  also have "\<dots> \<longleftrightarrow> i < nat \<lceil>h / dmg\<rceil>"
    by linarith
  finally show ?thesis .
qed

lemma unitDamage_ge_1: "1 \<le> calculateDamage p q"
  by (simp add: calculateDamage_def Let_def)

lemma unitDamage_int: "calculateDamage p q \<in> \<int>"
  by (simp add: calculateDamage_def Let_def Math_round_def max_def)

lemma unitDamage_le:
  assumes "0 \<le> dp_defense q" and "ap_attack p \<le> B"
    and "\<forall>r. ap_rangeDamage p = Some r \<longrightarrow> r \<le> B" and "1 \<le> B"
  shows "calculateDamage p q \<le> B + 1"
proof -
  define power where "power =
    (case ap_rangeDamage p of
       Some rd \<Rightarrow> if rd > 0 then rd else ap_attack p
     | None \<Rightarrow> ap_attack p)"
  have "power \<le> B"
    using assms(2,3) by (simp add: power_def split: option.splits)
  moreover have "0 \<le> dp_defense q * (45 / 100)"
    using assms(1) by simp
  ultimately have "power - dp_defense q * (45 / 100) + 1 / 2 \<le> B + 1"
    by linarith
  moreover have "of_int \<lfloor>power - dp_defense q * (45 / 100) + 1 / 2\<rfloor>
      \<le> power - dp_defense q * (45 / 100) + 1 / 2"
    by (rule of_int_floor_le)
  ultimately have "Math_round (power - dp_defense q * (45 / 100)) \<le> B + 1"
    unfolding Math_round_def by linarith
  then show ?thesis
    using assms(4) by (simp add: calculateDamage_def Let_def power_def [symmetric])
qed

lemma duel_tick:
  assumes "su_id a < su_id d" and "su_team a = Attacker" and "su_team d = Defender"
    and "su_x a = su_x d" and "0 \<le> su_range a" and "0 \<le> su_range d"
    and "0 < su_hp a" and "0 < su_hp d"
  shows "simTick dt \<lparr>st_attackers = [a], st_defenders = [d], st_time = t\<rparr> =
    (let hitA = (su_cooldownMs a \<le> bin64 (t - su_lastAttackAt a));
         a1 = (if hitA then a\<lparr>su_lastAttackAt := t\<rparr> else a);
         d1 = (if hitA
               then d\<lparr>su_hp :=
                      bin64 (su_hp d - calculateDamage (attackProfile a) (defenseProfile d))\<rparr>
               else d);
         hitD = (0 < su_hp d1 \<and> su_cooldownMs d \<le> bin64 (t - su_lastAttackAt d));
         d2 = (if hitD then d1\<lparr>su_lastAttackAt := t\<rparr> else d1);
         a2 = (if hitD
               then a1\<lparr>su_hp :=
                       bin64 (su_hp a - calculateDamage (attackProfile d) (defenseProfile a))\<rparr>
               else a1)
     in \<lparr>st_attackers = filter (\<lambda>u. 0 < su_hp u) [a2],
         st_defenders = filter (\<lambda>u. 0 < su_hp u) [d2],
         st_time = bin64 (t + dt)\<rparr>)"
  using assms
  by (simp add: simTick_def stepOrdered_def stepUnit_def findNearestEnemy_def getUnit_def
      putUnit_def applyAttack_def attackProfile_def defenseProfile_def Let_def)

lemma due_facts:
  fixes cd dt :: rat
  assumes "0 < cd" and "0 < dt" and m: "m = nat \<lceil>cd / dt\<rceil>"
  shows "cd \<le> of_nat k * dt - of_nat (m * ((k - 1) div m)) * dt \<longleftrightarrow> k \<noteq> 0 \<and> k mod m = 0"
    and "k div m = (k - 1) div m + (if k \<noteq> 0 \<and> k mod m = 0 then 1 else 0)"
    and "k \<noteq> 0 \<and> k mod m = 0 \<Longrightarrow> m * (k div m) = k"
proof -
  note f = attack_due_Suc [OF assms]
  show "cd \<le> of_nat k * dt - of_nat (m * ((k - 1) div m)) * dt \<longleftrightarrow> k \<noteq> 0 \<and> k mod m = 0"
  proof (cases k)
    case 0
    then show ?thesis using f(3) by simp
  next
    case (Suc j)
    then show ?thesis using f(2) [of j] by simp
  qed
  show "k div m = (k - 1) div m + (if k \<noteq> 0 \<and> k mod m = 0 then 1 else 0)"
  proof (cases k)
    case 0
    then show ?thesis by simp
  next
    case (Suc j)
    then show ?thesis by (simp add: div_Suc)
  qed
  show "k \<noteq> 0 \<and> k mod m = 0 \<Longrightarrow> m * (k div m) = k"
    by auto
qed

text \<open>
  One turn of the loop on a duel in which the attacker has landed \<open>(k - 1) div mA\<close> hits
  and the defender \<open>(k - 1) div mD\<close> hits before the turn \<open>k\<close>, both units alive. The time
  step, the hit points and the damages are whole numbers, and they and the time are below
  \<open>2 ^ 53\<close>, so that binary64 holds every sum and difference of the turn exactly.
\<close>

lemma duel_turn:
  assumes ids: "su_id a0 < su_id d0" and ta: "su_team a0 = Attacker" and td: "su_team d0 = Defender"
    and x: "su_x a0 = su_x d0" and ra: "0 \<le> su_range a0" and rd: "0 \<le> su_range d0"
    and ca: "0 < su_cooldownMs a0" and cd: "0 < su_cooldownMs d0" and dt: "0 < dt"
    and mA: "mA = nat \<lceil>su_cooldownMs a0 / dt\<rceil>" and mD: "mD = nat \<lceil>su_cooldownMs d0 / dt\<rceil>"
    and dA: "dA = calculateDamage (attackProfile a0) (defenseProfile d0)"
    and dD: "dD = calculateDamage (attackProfile d0) (defenseProfile a0)"
    and aliveA: "0 < su_hp a0 - of_nat ((k - 1) div mD) * dD"
    and aliveD: "0 < su_hp d0 - of_nat ((k - 1) div mA) * dA"
    and whole: "dt \<in> \<int>" "su_hp a0 \<in> \<int>" "su_hp d0 \<in> \<int>"
    and small: "of_nat (Suc k) * dt < 2 ^ 53" "su_hp a0 < 2 ^ 53" "su_hp d0 < 2 ^ 53"
      "dA < 2 ^ 53" "dD < 2 ^ 53"
  shows "simTick dt
      \<lparr>st_attackers =
         [a0\<lparr>su_lastAttackAt := of_nat (mA * ((k - 1) div mA)) * dt,
             su_hp := su_hp a0 - of_nat ((k - 1) div mD) * dD\<rparr>],
       st_defenders =
         [d0\<lparr>su_lastAttackAt := of_nat (mD * ((k - 1) div mD)) * dt,
             su_hp := su_hp d0 - of_nat ((k - 1) div mA) * dA\<rparr>],
       st_time = of_nat k * dt\<rparr> =
    (if 0 < su_hp d0 - of_nat (k div mA) * dA
     then
       \<lparr>st_attackers =
          filter (\<lambda>u. 0 < su_hp u)
            [a0\<lparr>su_lastAttackAt := of_nat (mA * (k div mA)) * dt,
                su_hp := su_hp a0 - of_nat (k div mD) * dD\<rparr>],
        st_defenders =
          [d0\<lparr>su_lastAttackAt := of_nat (mD * (k div mD)) * dt,
              su_hp := su_hp d0 - of_nat (k div mA) * dA\<rparr>],
        st_time = of_nat (Suc k) * dt\<rparr>
     else
       \<lparr>st_attackers =
          [a0\<lparr>su_lastAttackAt := of_nat (mA * (k div mA)) * dt,
              su_hp := su_hp a0 - of_nat ((k - 1) div mD) * dD\<rparr>],
        st_defenders = [],
        st_time = of_nat (Suc k) * dt\<rparr>)"
proof -
  note fa = due_facts [OF ca dt mA, of k]
  note fd = due_facts [OF cd dt mD, of k]
  define a where "a = a0\<lparr>su_lastAttackAt := of_nat (mA * ((k - 1) div mA)) * dt,
             su_hp := su_hp a0 - of_nat ((k - 1) div mD) * dD\<rparr>"
  define d where "d = d0\<lparr>su_lastAttackAt := of_nat (mD * ((k - 1) div mD)) * dt,
             su_hp := su_hp d0 - of_nat ((k - 1) div mA) * dA\<rparr>"
  have pre: "su_id a < su_id d" "su_team a = Attacker" "su_team d = Defender"
    "su_x a = su_x d" "0 \<le> su_range a" "0 \<le> su_range d" "0 < su_hp a" "0 < su_hp d"
    using ids ta td x ra rd aliveA aliveD by (simp_all add: a_def d_def)
  have dmg: "calculateDamage (attackProfile a) (defenseProfile d) = dA"
    "calculateDamage (attackProfile d) (defenseProfile a) = dD"
    by (simp_all add: a_def d_def dA dD attackProfile_def defenseProfile_def)
  have dpos: "0 < dA" "0 < dD"
    using unitDamage_ge_1 [of "attackProfile a0" "defenseProfile d0"]
      unitDamage_ge_1 [of "attackProfile d0" "defenseProfile a0"]
    by (simp_all add: dA dD)
  then have taken: "0 \<le> of_nat ((k - 1) div mD) * dD" "0 \<le> of_nat ((k - 1) div mA) * dA"
    by simp_all
  then have hp0: "0 < su_hp a0" "0 < su_hp d0"
    using aliveA aliveD by linarith+
  have dwhole: "dA \<in> \<int>" "dD \<in> \<int>"
    unfolding dA dD by (rule unitDamage_int)+
  have exT: "bin64 (of_nat k * dt + dt) = of_nat k * dt + dt"
  proof (rule bin64_exact)
    show "of_nat k * dt + dt \<in> \<int>"
      using whole(1) by simp
    have "of_nat k * dt + dt = of_nat (Suc k) * dt"
      by (simp add: algebra_simps)
    moreover have "0 \<le> of_nat (Suc k) * dt"
      using dt by simp
    ultimately show "\<bar>of_nat k * dt + dt\<bar> < 2 ^ 53"
      using small(1) by simp
  qed
  have since: "bin64 (of_nat k * dt - of_nat (m * ((k - 1) div m)) * dt) =
      of_nat k * dt - of_nat (m * ((k - 1) div m)) * dt" for m
  proof (rule bin64_exact)
    show "of_nat k * dt - of_nat (m * ((k - 1) div m)) * dt \<in> \<int>"
      using whole(1) by simp
    have "m * ((k - 1) div m) \<le> k - 1"
      by simp
    then have "m * ((k - 1) div m) \<le> k"
      by linarith
    then have "(of_nat (m * ((k - 1) div m)) :: rat) \<le> of_nat k"
      by (simp only: of_nat_le_iff)
    then have "of_nat (m * ((k - 1) div m)) * dt \<le> of_nat k * dt"
      using dt by (simp only: mult_le_cancel_right_pos)
    moreover have "0 \<le> of_nat (m * ((k - 1) div m)) * dt"
      using dt by simp
    moreover have "of_nat k * dt \<le> of_nat (Suc k) * dt"
      using dt by (simp add: algebra_simps)
    ultimately show "\<bar>of_nat k * dt - of_nat (m * ((k - 1) div m)) * dt\<bar> < 2 ^ 53"
      using small(1) by linarith
  qed
  have exHd: "bin64 (su_hp d0 - of_nat ((k - 1) div mA) * dA - dA) =
      su_hp d0 - of_nat ((k - 1) div mA) * dA - dA"
  proof (rule bin64_exact)
    show "su_hp d0 - of_nat ((k - 1) div mA) * dA - dA \<in> \<int>"
      using whole(3) dwhole(1) by simp
    show "\<bar>su_hp d0 - of_nat ((k - 1) div mA) * dA - dA\<bar> < 2 ^ 53"
      using aliveD taken(2) dpos(1) small(3,4) by linarith
  qed
  have exHa: "bin64 (su_hp a0 - of_nat ((k - 1) div mD) * dD - dD) =
      su_hp a0 - of_nat ((k - 1) div mD) * dD - dD"
  proof (rule bin64_exact)
    show "su_hp a0 - of_nat ((k - 1) div mD) * dD - dD \<in> \<int>"
      using whole(2) dwhole(2) by simp
    show "\<bar>su_hp a0 - of_nat ((k - 1) div mD) * dD - dD\<bar> < 2 ^ 53"
      using aliveA taken(1) dpos(2) small(2,5) by linarith
  qed
  have exHd': "bin64 (su_hp d - dA) = su_hp d - dA"
    using exHd by (simp add: d_def)
  have exHa': "bin64 (su_hp a - dD) = su_hp a - dD"
    using exHa by (simp add: a_def)
  define dueA where "dueA \<longleftrightarrow> k \<noteq> 0 \<and> k mod mA = 0"
  define dueD where "dueD \<longleftrightarrow> k \<noteq> 0 \<and> k mod mD = 0"
  have hitA: "su_cooldownMs a \<le> bin64 (of_nat k * dt - su_lastAttackAt a) \<longleftrightarrow> dueA"
    using fa(1) since [of mA] by (simp add: a_def dueA_def)
  have hitD: "su_cooldownMs d \<le> bin64 (of_nat k * dt - su_lastAttackAt d) \<longleftrightarrow> dueD"
    using fd(1) since [of mD] by (simp add: d_def dueD_def)
  have hpd: "su_hp d0 - of_nat (k div mA) * dA =
      (if dueA then su_hp d0 - of_nat ((k - 1) div mA) * dA - dA
       else su_hp d0 - of_nat ((k - 1) div mA) * dA)"
    unfolding dueA_def by (subst fa(2)) (simp add: algebra_simps)
  have hpa: "su_hp a0 - of_nat (k div mD) * dD =
      (if dueD then su_hp a0 - of_nat ((k - 1) div mD) * dD - dD
       else su_hp a0 - of_nat ((k - 1) div mD) * dD)"
    unfolding dueD_def by (subst fd(2)) (simp add: algebra_simps)
  have la_nat: "mA * (k div mA) = (if dueA then k else mA * ((k - 1) div mA))"
  proof (cases dueA)
    case True
    then show ?thesis using fa(3) by (simp add: dueA_def)
  next
    case False
    then have "k div mA = (k - 1) div mA" using fa(2) by (simp add: dueA_def)
    with False show ?thesis by simp
  qed
  have ld_nat: "mD * (k div mD) = (if dueD then k else mD * ((k - 1) div mD))"
  proof (cases dueD)
    case True
    then show ?thesis using fd(3) by (simp add: dueD_def)
  next
    case False
    then have "k div mD = (k - 1) div mD" using fd(2) by (simp add: dueD_def)
    with False show ?thesis by simp
  qed
  have la: "of_nat (mA * (k div mA)) * dt =
      (if dueA then of_nat k * dt else of_nat (mA * ((k - 1) div mA)) * dt)"
    by (subst la_nat) simp
  have ld: "of_nat (mD * (k div mD)) * dt =
      (if dueD then of_nat k * dt else of_nat (mD * ((k - 1) div mD)) * dt)"
    by (subst ld_nat) simp
  have tick: "simTick dt \<lparr>st_attackers = [a], st_defenders = [d], st_time = of_nat k * dt\<rparr> =
    (let hitA = dueA;
         a1 = (if hitA then a\<lparr>su_lastAttackAt := of_nat k * dt\<rparr> else a);
         d1 = (if hitA then d\<lparr>su_hp := su_hp d - dA\<rparr> else d);
         hitD = (0 < su_hp d1 \<and> dueD);
         d2 = (if hitD then d1\<lparr>su_lastAttackAt := of_nat k * dt\<rparr> else d1);
         a2 = (if hitD then a1\<lparr>su_hp := su_hp a - dD\<rparr> else a1)
     in \<lparr>st_attackers = filter (\<lambda>u. 0 < su_hp u) [a2],
         st_defenders = filter (\<lambda>u. 0 < su_hp u) [d2],
         st_time = of_nat k * dt + dt\<rparr>)"
    unfolding duel_tick [OF pre] dmg hitA hitD exHd' exHa' exT ..
  have time: "of_nat k * dt + dt = of_nat (Suc k) * dt"
    by (simp add: algebra_simps)
  show ?thesis
  proof (cases dueA)
    case dueA: True
    show ?thesis
    proof (cases "0 < su_hp d0 - of_nat (k div mA) * dA")
      case alive: True
      show ?thesis
      proof (cases dueD)
        case dueD: True
        show ?thesis
          unfolding a_def [symmetric] d_def [symmetric] tick Let_def time hpd hpa la ld
          using dueA alive [unfolded hpd] dueD aliveA aliveD
          by (simp add: a_def d_def)
      next
        case dueD: False
        show ?thesis
          unfolding a_def [symmetric] d_def [symmetric] tick Let_def time hpd hpa la ld
          using dueA alive [unfolded hpd] dueD aliveA aliveD
          by (simp add: a_def d_def)
      qed
    next
      case dead: False
      show ?thesis
        unfolding a_def [symmetric] d_def [symmetric] tick Let_def time hpd hpa la ld
        using dueA dead [unfolded hpd] aliveA aliveD
        by (simp add: a_def d_def)
    qed
  next
    case dueA: False
    show ?thesis
    proof (cases dueD)
      case dueD: True
      show ?thesis
        unfolding a_def [symmetric] d_def [symmetric] tick Let_def time hpd hpa la ld
        using dueA dueD aliveA aliveD
        by (simp add: a_def d_def)
    next
      case dueD: False
      show ?thesis
        unfolding a_def [symmetric] d_def [symmetric] tick Let_def time hpd hpa la ld
        using dueA dueD aliveA aliveD
        by (simp add: a_def d_def)
    qed
  qed
qed

text \<open>
  The whole duel. Before the turn \<open>k\<close> the attacker has landed \<open>(k - 1) div mA\<close> hits and
  the defender \<open>(k - 1) div mD\<close>; the first turn in which a unit has taken its required
  hits is the last turn of the loop.
\<close>

lemma duel_outcome:
  assumes ids: "su_id a0 < su_id d0" and ta: "su_team a0 = Attacker" and td: "su_team d0 = Defender"
    and x: "su_x a0 = su_x d0" and ra: "0 \<le> su_range a0" and rd: "0 \<le> su_range d0"
    and ca: "0 < su_cooldownMs a0" and cd: "0 < su_cooldownMs d0" and dt: "0 < dt"
    and la0: "su_lastAttackAt a0 = 0" and ld0: "su_lastAttackAt d0 = 0"
    and hpa0: "0 < su_hp a0" and hpd0: "0 < su_hp d0"
    and mA: "mA = nat \<lceil>su_cooldownMs a0 / dt\<rceil>" and mD: "mD = nat \<lceil>su_cooldownMs d0 / dt\<rceil>"
    and dA: "dA = calculateDamage (attackProfile a0) (defenseProfile d0)"
    and dD: "dD = calculateDamage (attackProfile d0) (defenseProfile a0)"
    and HA: "HA = nat \<lceil>su_hp d0 / dA\<rceil>" and HD: "HD = nat \<lceil>su_hp a0 / dD\<rceil>"
    and whole: "dt \<in> \<int>" "su_hp a0 \<in> \<int>" "su_hp d0 \<in> \<int>"
    and small: "su_hp a0 < 2 ^ 53" "su_hp d0 < 2 ^ 53" "dA < 2 ^ 53" "dD < 2 ^ 53"
  shows "HA * mA \<le> HD * mD \<Longrightarrow> of_nat (HA * mA) * dt \<le> cap \<Longrightarrow>
      of_nat (HA * mA + 1) * dt < 2 ^ 53 \<Longrightarrow>
      \<exists>a'. simLoop cap dt \<lparr>st_attackers = [a0], st_defenders = [d0], st_time = 0\<rparr> =
        Some \<lparr>st_attackers = [a'], st_defenders = [], st_time = of_nat (HA * mA + 1) * dt\<rparr>"
    and "HD * mD < HA * mA \<Longrightarrow> of_nat (HD * mD) * dt \<le> cap \<Longrightarrow>
      of_nat (HD * mD + 1) * dt < 2 ^ 53 \<Longrightarrow>
      \<exists>d'. simLoop cap dt \<lparr>st_attackers = [a0], st_defenders = [d0], st_time = 0\<rparr> =
        Some \<lparr>st_attackers = [], st_defenders = [d'], st_time = of_nat (HD * mD + 1) * dt\<rparr>"
proof -
  define A where "A k = a0\<lparr>su_lastAttackAt := of_nat (mA * ((k - 1) div mA)) * dt,
      su_hp := su_hp a0 - of_nat ((k - 1) div mD) * dD\<rparr>" for k
  define D where "D k = d0\<lparr>su_lastAttackAt := of_nat (mD * ((k - 1) div mD)) * dt,
      su_hp := su_hp d0 - of_nat ((k - 1) div mA) * dA\<rparr>" for k
  define S where "S k = \<lparr>st_attackers = [A k], st_defenders = [D k], st_time = of_nat k * dt\<rparr>"
    for k
  have "a0\<lparr>su_lastAttackAt := su_lastAttackAt a0\<rparr> = a0"
    and "d0\<lparr>su_lastAttackAt := su_lastAttackAt d0\<rparr> = d0"
    by simp_all
  then have S0: "S 0 = \<lparr>st_attackers = [a0], st_defenders = [d0], st_time = 0\<rparr>"
    unfolding la0 ld0 by (simp add: S_def A_def D_def)
  have mA1: "1 \<le> mA" and mD1: "1 \<le> mD"
    using attack_due_Suc(1) [OF ca dt mA] attack_due_Suc(1) [OF cd dt mD] by simp_all
  have dA1: "0 < dA" and dD1: "0 < dD"
    using unitDamage_ge_1 [of "attackProfile a0" "defenseProfile d0"]
      unitDamage_ge_1 [of "attackProfile d0" "defenseProfile a0"]
    by (simp_all add: dA dD)
  have aliveD: "0 < su_hp d0 - of_nat i * dA \<longleftrightarrow> i < HA" for i
    unfolding HA by (rule alive_iff_hits [OF dA1])
  have aliveA: "0 < su_hp a0 - of_nat i * dD \<longleftrightarrow> i < HD" for i
    unfolding HD by (rule alive_iff_hits [OF dD1])
  have aliveD': "of_nat i * dA < su_hp d0 \<longleftrightarrow> i < HA" for i
    using aliveD [of i] by simp
  have aliveA': "of_nat i * dD < su_hp a0 \<longleftrightarrow> i < HD" for i
    using aliveA [of i] by simp
  have HA1: "1 \<le> HA" and HD1: "1 \<le> HD"
    using aliveD [of 0] aliveA [of 0] hpa0 hpd0 by simp_all
  have divA: "i div mA < HA \<longleftrightarrow> i < HA * mA" for i
    using mA1 by (simp add: div_less_iff_less_mult)
  have divD: "i div mD < HD \<longleftrightarrow> i < HD * mD" for i
    using mD1 by (simp add: div_less_iff_less_mult)
  have TA1: "1 \<le> HA * mA" and TD1: "1 \<le> HD * mD"
    using mA1 mD1 HA1 HD1 by (simp_all add: Suc_le_eq)
  have turn': "simTick dt (S k) =
      (if k < HA * mA
       then \<lparr>st_attackers = filter (\<lambda>u. 0 < su_hp u) [A (Suc k)],
             st_defenders = [D (Suc k)], st_time = of_nat (Suc k) * dt\<rparr>
       else \<lparr>st_attackers =
               [a0\<lparr>su_lastAttackAt := of_nat (mA * (k div mA)) * dt,
                   su_hp := su_hp a0 - of_nat ((k - 1) div mD) * dD\<rparr>],
             st_defenders = [], st_time = of_nat (Suc k) * dt\<rparr>)"
    if "k - 1 < HA * mA" and "k - 1 < HD * mD" and "of_nat (Suc k) * dt < 2 ^ 53" for k
  proof -
    have "0 < su_hp a0 - of_nat ((k - 1) div mD) * dD"
      and "0 < su_hp d0 - of_nat ((k - 1) div mA) * dA"
      using that by (simp_all add: aliveA' aliveD' divA divD)
    then show ?thesis
      unfolding S_def A_def D_def
      by (subst duel_turn
          [OF ids ta td x ra rd ca cd dt mA mD dA dD _ _ whole that(3) small])
        (simp_all add: aliveD' divA)
  qed
  have hpA: "su_hp (A k) = su_hp a0 - of_nat ((k - 1) div mD) * dD" for k
    by (simp add: A_def)
  have mono: "of_nat k * dt \<le> of_nat n * dt" if "k \<le> n" for k n :: nat
    using that dt by simp
  have step: "simTick dt (S k) = S (Suc k)"
    if "k < HA * mA" and "k < HD * mD" and "of_nat (Suc k) * dt < 2 ^ 53" for k
  proof -
    have "k - 1 < HA * mA" and "k - 1 < HD * mD"
      using that by simp_all
    moreover have "0 < su_hp (A (Suc k))"
      using that(2) by (simp add: hpA aliveA' divD)
    ultimately show ?thesis
      using that(1,3) by (subst turn') (simp_all add: S_def)
  qed
  have reach: "(simTick dt ^^ k) (S 0) = S k"
    if "k \<le> HA * mA" and "k \<le> HD * mD" and "of_nat k * dt < 2 ^ 53" for k
    using that
  proof (induction k)
    case 0
    show ?case by simp
  next
    case (Suc k)
    have "of_nat k * dt \<le> of_nat (Suc k) * dt"
      by (rule mono) simp
    then have "(simTick dt ^^ k) (S 0) = S k"
      using Suc by simp
    moreover have "simTick dt (S k) = S (Suc k)"
      using Suc.prems by (intro step) simp_all
    ultimately show ?case by simp
  qed
  have running: "simRunning cap (S k)" if "of_nat k * dt \<le> cap" for k
    using that by (simp add: simRunning_def S_def)
  {
    assume first: "HA * mA \<le> HD * mD" and cap: "of_nat (HA * mA) * dt \<le> cap"
      and bound: "of_nat (HA * mA + 1) * dt < 2 ^ 53"
    define T where "T = HA * mA"
    have bound': "of_nat (Suc T) * dt < 2 ^ 53"
      using bound by (simp add: T_def)
    have below: "of_nat k * dt < 2 ^ 53" if "k \<le> Suc T" for k
      using mono [OF that] bound' by linarith
    define a' where "a' = a0\<lparr>su_lastAttackAt := of_nat (mA * (T div mA)) * dt,
        su_hp := su_hp a0 - of_nat ((T - 1) div mD) * dD\<rparr>"
    have "T - 1 < HA * mA" and "T - 1 < HD * mD"
      using first TA1 unfolding T_def by linarith+
    then have last: "simTick dt (S T) =
        \<lparr>st_attackers = [a'], st_defenders = [], st_time = of_nat (Suc T) * dt\<rparr>"
      using bound' by (simp add: turn' a'_def T_def)
    have "\<forall>k<Suc T. simRunning cap ((simTick dt ^^ k) (S 0))"
    proof (intro allI impI)
      fix k
      assume "k < Suc T"
      then have k: "k \<le> HA * mA" "k \<le> HD * mD" "of_nat k * dt < 2 ^ 53"
        using first below [of k] unfolding T_def by simp_all
      have "of_nat k * dt \<le> cap"
        using mono [OF k(1)] cap by simp
      then show "simRunning cap ((simTick dt ^^ k) (S 0))"
        by (simp add: reach [OF k] running)
    qed
    moreover have "(simTick dt ^^ Suc T) (S 0) =
        \<lparr>st_attackers = [a'], st_defenders = [], st_time = of_nat (Suc T) * dt\<rparr>"
      using reach [of T] first last below [of T] by (simp add: T_def)
    moreover have "\<not> simRunning cap
        \<lparr>st_attackers = [a'], st_defenders = [], st_time = of_nat (Suc T) * dt\<rparr>"
      by (simp add: simRunning_def)
    ultimately have "simLoop cap dt (S 0) =
        Some \<lparr>st_attackers = [a'], st_defenders = [], st_time = of_nat (Suc T) * dt\<rparr>"
      using simLoop_funpow [of "Suc T" cap dt "S 0"] by simp
    then show "\<exists>a'. simLoop cap dt \<lparr>st_attackers = [a0], st_defenders = [d0], st_time = 0\<rparr> =
        Some \<lparr>st_attackers = [a'], st_defenders = [], st_time = of_nat (HA * mA + 1) * dt\<rparr>"
      unfolding S0 T_def by auto
  }
  {
    assume first: "HD * mD < HA * mA" and cap: "of_nat (HD * mD) * dt \<le> cap"
      and bound: "of_nat (HD * mD + 1) * dt < 2 ^ 53"
    define T where "T = HD * mD"
    have bound': "of_nat (Suc T) * dt < 2 ^ 53"
      using bound by (simp add: T_def)
    have below: "of_nat k * dt < 2 ^ 53" if "k \<le> Suc T" for k
      using mono [OF that] bound' by linarith
    have "T - 1 < HA * mA" and "T - 1 < HD * mD" and "T < HA * mA"
      using first TD1 unfolding T_def by linarith+
    moreover have "\<not> 0 < su_hp (A (Suc T))"
      using mD1 by (simp add: hpA aliveA' T_def)
    ultimately have last: "simTick dt (S T) =
        \<lparr>st_attackers = [], st_defenders = [D (Suc T)], st_time = of_nat (Suc T) * dt\<rparr>"
      using bound' by (simp add: turn')
    have "\<forall>k<Suc T. simRunning cap ((simTick dt ^^ k) (S 0))"
    proof (intro allI impI)
      fix k
      assume "k < Suc T"
      then have k: "k \<le> HA * mA" "k \<le> HD * mD" "of_nat k * dt < 2 ^ 53"
        using first below [of k] unfolding T_def by simp_all
      have "of_nat k * dt \<le> cap"
        using mono [OF k(2)] cap by simp
      then show "simRunning cap ((simTick dt ^^ k) (S 0))"
        by (simp add: reach [OF k] running)
    qed
    moreover have "(simTick dt ^^ Suc T) (S 0) =
        \<lparr>st_attackers = [], st_defenders = [D (Suc T)], st_time = of_nat (Suc T) * dt\<rparr>"
      using reach [of T] first last below [of T] by (simp add: T_def)
    moreover have "\<not> simRunning cap
        \<lparr>st_attackers = [], st_defenders = [D (Suc T)], st_time = of_nat (Suc T) * dt\<rparr>"
      by (simp add: simRunning_def)
    ultimately have "simLoop cap dt (S 0) =
        Some \<lparr>st_attackers = [], st_defenders = [D (Suc T)], st_time = of_nat (Suc T) * dt\<rparr>"
      using simLoop_funpow [of "Suc T" cap dt "S 0"] by simp
    then show "\<exists>d'. simLoop cap dt \<lparr>st_attackers = [a0], st_defenders = [d0], st_time = 0\<rparr> =
        Some \<lparr>st_attackers = [], st_defenders = [d'], st_time = of_nat (HD * mD + 1) * dt\<rparr>"
      unfolding S0 T_def by auto
  }
qed

lemma catalog_entry:
  assumes "unitCombatStats type = Some stats"
  shows "0 < cs_health stats"
    and "0 \<le> bd_range (deriveBattleStats stats)"
    and "0 < bd_cooldownMs (deriveBattleStats stats)"
  using assms
  by (cases type rule: unitCombatStats.cases;
      auto simp: melee_def ranged_def deriveBattleStats_def rangeToPixels_def Let_def
        RANGE_SCALE_def DEFAULT_MELEE_RANGE_def RANGED_COOLDOWN_MS_def MELEE_COOLDOWN_MS_def)+

text \<open>The values of the catalog are whole numbers, none above 50.\<close>

lemma catalog_whole:
  assumes "unitCombatStats type = Some stats"
  shows "cs_health stats \<in> \<int>"
    and "cs_health stats \<le> 50"
    and "0 \<le> cs_defense stats"
    and "cs_attack stats \<le> 50"
    and "\<forall>r. cs_rangeDamage stats = Some r \<longrightarrow> r \<le> 50"
  using assms
  by (cases type rule: unitCombatStats.cases; auto simp: melee_def ranged_def)+

lemma hitDamage_catalog:
  assumes "unitCombatStats striker = Some ss" and "unitCombatStats target = Some st"
  shows "hitDamage ss st \<le> 51"
  using unitDamage_le
    [of "\<lparr>dp_defense = cs_defense st\<rparr>"
        "\<lparr>ap_attack = cs_attack ss, ap_rangeDamage = cs_rangeDamage ss\<rparr>" 50]
    catalog_whole(3) [OF assms(2)] catalog_whole(4,5) [OF assms(1)]
  by (simp add: hitDamage_def)

lemma initialState_duel:
  assumes "unitCombatStats (attackerType config) = Some sa"
    and "unitCombatStats (defenderType config) = Some sd"
    and "effAttackerCount config = 1" and "effDefenderCount config = 1"
  shows "\<exists>a0 d0.
      initialState config = Inr \<lparr>st_attackers = [a0], st_defenders = [d0], st_time = 0\<rparr>
      \<and> buildUnit (attackerType config) Attacker 1 0 = Inr a0
      \<and> buildUnit (defenderType config) Defender 2 (effStartDistance config) = Inr d0"
  using assms
  by (simp add: initialState_def createPack_def buildUnit_def Let_def)

text \<open>
  C8, as the spec states it, fails: the loop adds the time step once more after the turn
  of the killing blow, and \<open>durationMs\<close> is the time after that turn. One Warrior against
  one Dwarf at distance 0, with the default step of 50: the Dwarf deals
  \<open>round (12 - 2.7) = 9\<close> a hit, the Warrior (health 25) takes \<open>ceil (25 / 9) = 3\<close> hits, the
  Dwarf's cooldown is 450, so the spec's formula gives \<open>ceil (3 * 450) = 1350\<close>; the
  resolver reports 1400.
\<close>

theorem duel_duration_counterexample:
  "simulateBattle (duel (Regular WARRIOR) (Regular DWARF) 0 60000 50) =
     Some (Inr \<lparr>winner = Won Defender, remaining_attacker = 0, remaining_defender = 1,
                durationMs = 1400\<rparr>)
   \<and> hitDamage (melee 12 20 40 1) (melee 8 6 25 2) = 9
   \<and> requiredHits (melee 12 20 40 1) (melee 8 6 25 2) = 3
   \<and> bd_cooldownMs (deriveBattleStats (melee 12 20 40 1)) = 450
   \<and> (of_int \<lceil>of_nat (requiredHits (melee 12 20 40 1) (melee 8 6 25 2))
                 * bd_cooldownMs (deriveBattleStats (melee 12 20 40 1))\<rceil> :: number) = 1350
   \<and> (1400 :: number) \<noteq> 1350"
proof (intro conjI)
  show "simulateBattle (duel (Regular WARRIOR) (Regular DWARF) 0 60000 50) =
     Some (Inr \<lparr>winner = Won Defender, remaining_attacker = 0, remaining_defender = 1,
                durationMs = 1400\<rparr>)"
    by code_simp
  show "hitDamage (melee 12 20 40 1) (melee 8 6 25 2) = 9"
    by code_simp
  show "requiredHits (melee 12 20 40 1) (melee 8 6 25 2) = 3"
    by code_simp
  show "bd_cooldownMs (deriveBattleStats (melee 12 20 40 1)) = 450"
    by code_simp
  show "(of_int \<lceil>of_nat (requiredHits (melee 12 20 40 1) (melee 8 6 25 2))
                 * bd_cooldownMs (deriveBattleStats (melee 12 20 40 1))\<rceil> :: number) = 1350"
    by code_simp
qed simp

text \<open>
  C8, amended. For every duel of two catalog unit types (one unit a side, start distance
  0) whose \<open>timeStepMs\<close> is a positive whole number, with
  \<open>maxDurationMs + timeStepMs < 2 ^ 53\<close> (where binary64 holds the times of the turns
  exactly), the unit that takes its required hits first dies first (the defender, if both
  would in the same turn: the attacker acts first), and if that turn starts within the
  cap the resolver reports
  \<open>durationMs = (requiredHits * ceil (cooldownMs / timeStepMs) + 1) * timeStepMs\<close>, with
  \<open>requiredHits = ceil (targetHp / damage)\<close>, the damage by the shared formula and the
  cooldown that of the unit that kills. Where the cooldown is a multiple of the time step
  this is \<open>requiredHits * cooldownMs + timeStepMs\<close>: one time step more than the formula
  of the spec.
\<close>

theorem duel_duration:
  assumes sa: "unitCombatStats (attackerType config) = Some sa"
    and sd: "unitCombatStats (defenderType config) = Some sd"
    and one: "effAttackerCount config = 1" "effDefenderCount config = 1"
    and zero: "effStartDistance config = 0"
    and step: "effTimeStepMs config \<in> \<nat>"
    and dt: "0 < effTimeStepMs config"
    and cap: "effMaxDurationMs config + effTimeStepMs config < 2 ^ 53"
  shows "(killTurn sa sd (effTimeStepMs config) \<le> killTurn sd sa (effTimeStepMs config)
          \<and> of_nat (killTurn sa sd (effTimeStepMs config)) * effTimeStepMs config
              \<le> effMaxDurationMs config
        \<longrightarrow> simulateBattle config =
            Some (Inr \<lparr>winner = Won Attacker, remaining_attacker = 1, remaining_defender = 0,
               durationMs =
                 of_nat (requiredHits sa sd * stepsPerAttack sa (effTimeStepMs config) + 1)
                   * effTimeStepMs config\<rparr>))
    \<and> (killTurn sd sa (effTimeStepMs config) < killTurn sa sd (effTimeStepMs config)
          \<and> of_nat (killTurn sd sa (effTimeStepMs config)) * effTimeStepMs config
              \<le> effMaxDurationMs config
        \<longrightarrow> simulateBattle config =
            Some (Inr \<lparr>winner = Won Defender, remaining_attacker = 0, remaining_defender = 1,
               durationMs =
                 of_nat (requiredHits sd sa * stepsPerAttack sd (effTimeStepMs config) + 1)
                   * effTimeStepMs config\<rparr>))
    \<and> (\<forall>s \<in> {sa, sd}. \<forall>j.
          bd_cooldownMs (deriveBattleStats s) = of_nat j * effTimeStepMs config
          \<longrightarrow> (\<forall>h. of_nat (h * stepsPerAttack s (effTimeStepMs config) + 1)
                      * effTimeStepMs config
                   = of_nat h * bd_cooldownMs (deriveBattleStats s) + effTimeStepMs config))"
proof (intro conjI impI ballI allI)
  obtain a0 d0 where s0: "initialState config =
        Inr \<lparr>st_attackers = [a0], st_defenders = [d0], st_time = 0\<rparr>"
    and a0: "buildUnit (attackerType config) Attacker 1 0 = Inr a0"
    and d0: "buildUnit (defenderType config) Defender 2 0 = Inr d0"
    using initialState_duel [OF sa sd one] zero by auto
  have a0': "a0 = \<lparr>su_id = 1, su_team = Attacker, su_type = attackerType config,
      su_attack = cs_attack sa, su_defense = cs_defense sa,
      su_hp = cs_health sa, su_maxHp = cs_health sa,
      su_speed = bd_speed (deriveBattleStats sa), su_range = bd_range (deriveBattleStats sa),
      su_rangeDamage = cs_rangeDamage sa, su_isRanged = bd_isRanged (deriveBattleStats sa),
      su_cooldownMs = bd_cooldownMs (deriveBattleStats sa),
      su_lastAttackAt = 0, su_x = 0\<rparr>"
    using a0 sa by (simp add: buildUnit_def Let_def)
  have d0': "d0 = \<lparr>su_id = 2, su_team = Defender, su_type = defenderType config,
      su_attack = cs_attack sd, su_defense = cs_defense sd,
      su_hp = cs_health sd, su_maxHp = cs_health sd,
      su_speed = bd_speed (deriveBattleStats sd), su_range = bd_range (deriveBattleStats sd),
      su_rangeDamage = cs_rangeDamage sd, su_isRanged = bd_isRanged (deriveBattleStats sd),
      su_cooldownMs = bd_cooldownMs (deriveBattleStats sd),
      su_lastAttackAt = 0, su_x = 0\<rparr>"
    using d0 sd by (simp add: buildUnit_def Let_def)
  note ca = catalog_entry [OF sa] and cd = catalog_entry [OF sd]
  have pre: "su_id a0 < su_id d0" "su_team a0 = Attacker" "su_team d0 = Defender"
    "su_x a0 = su_x d0" "0 \<le> su_range a0" "0 \<le> su_range d0"
    "0 < su_cooldownMs a0" "0 < su_cooldownMs d0"
    using ca cd by (simp_all add: a0' d0')
  have pre2: "su_lastAttackAt a0 = 0" "su_lastAttackAt d0 = 0" "0 < su_hp a0" "0 < su_hp d0"
    using ca cd by (simp_all add: a0' d0')
  have mA: "stepsPerAttack sa (effTimeStepMs config) = nat \<lceil>su_cooldownMs a0 / effTimeStepMs config\<rceil>"
    and mD: "stepsPerAttack sd (effTimeStepMs config) = nat \<lceil>su_cooldownMs d0 / effTimeStepMs config\<rceil>"
    by (simp_all add: stepsPerAttack_def a0' d0')
  have dA: "hitDamage sa sd = calculateDamage (attackProfile a0) (defenseProfile d0)"
    and dD: "hitDamage sd sa = calculateDamage (attackProfile d0) (defenseProfile a0)"
    by (simp_all add: hitDamage_def attackProfile_def defenseProfile_def a0' d0')
  have HA: "requiredHits sa sd = nat \<lceil>su_hp d0 / hitDamage sa sd\<rceil>"
    and HD: "requiredHits sd sa = nat \<lceil>su_hp a0 / hitDamage sd sa\<rceil>"
    by (simp_all add: requiredHits_def a0' d0')
  have whole: "effTimeStepMs config \<in> \<int>" "su_hp a0 \<in> \<int>" "su_hp d0 \<in> \<int>"
    using step Nats_subset_Ints catalog_whole(1) [OF sa] catalog_whole(1) [OF sd]
    by (auto simp: a0' d0')
  have small: "su_hp a0 < 2 ^ 53" "su_hp d0 < 2 ^ 53"
    "hitDamage sa sd < 2 ^ 53" "hitDamage sd sa < 2 ^ 53"
    using catalog_whole(2) [OF sa] catalog_whole(2) [OF sd]
      hitDamage_catalog [OF sa sd] hitDamage_catalog [OF sd sa]
    by (simp_all add: a0' d0')
  have below: "of_nat (T + 1) * effTimeStepMs config < 2 ^ 53"
    if "of_nat T * effTimeStepMs config \<le> effMaxDurationMs config" for T :: nat
  proof -
    have "of_nat (T + 1) * effTimeStepMs config =
        of_nat T * effTimeStepMs config + effTimeStepMs config"
      by (simp add: algebra_simps)
    then show ?thesis
      using that cap by linarith
  qed
  note outcome = duel_outcome
    [OF pre dt pre2 mA mD dA dD HA HD whole small, of "effMaxDurationMs config"]
  {
    assume "killTurn sa sd (effTimeStepMs config) \<le> killTurn sd sa (effTimeStepMs config)
        \<and> of_nat (killTurn sa sd (effTimeStepMs config)) * effTimeStepMs config
            \<le> effMaxDurationMs config"
    then obtain a' where "simLoop (effMaxDurationMs config) (effTimeStepMs config)
        \<lparr>st_attackers = [a0], st_defenders = [d0], st_time = 0\<rparr> =
      Some \<lparr>st_attackers = [a'], st_defenders = [],
            st_time = of_nat (requiredHits sa sd * stepsPerAttack sa (effTimeStepMs config) + 1)
              * effTimeStepMs config\<rparr>"
      using outcome(1) below unfolding killTurn_def by blast
    then show "simulateBattle config =
        Some (Inr \<lparr>winner = Won Attacker, remaining_attacker = 1, remaining_defender = 0,
           durationMs =
             of_nat (requiredHits sa sd * stepsPerAttack sa (effTimeStepMs config) + 1)
               * effTimeStepMs config\<rparr>)"
      by (simp add: simulateBattle_def s0 simResult_def)
  }
  {
    assume "killTurn sd sa (effTimeStepMs config) < killTurn sa sd (effTimeStepMs config)
        \<and> of_nat (killTurn sd sa (effTimeStepMs config)) * effTimeStepMs config
            \<le> effMaxDurationMs config"
    then obtain d' where "simLoop (effMaxDurationMs config) (effTimeStepMs config)
        \<lparr>st_attackers = [a0], st_defenders = [d0], st_time = 0\<rparr> =
      Some \<lparr>st_attackers = [], st_defenders = [d'],
            st_time = of_nat (requiredHits sd sa * stepsPerAttack sd (effTimeStepMs config) + 1)
              * effTimeStepMs config\<rparr>"
      using outcome(2) below unfolding killTurn_def by blast
    then show "simulateBattle config =
        Some (Inr \<lparr>winner = Won Defender, remaining_attacker = 0, remaining_defender = 1,
           durationMs =
             of_nat (requiredHits sd sa * stepsPerAttack sd (effTimeStepMs config) + 1)
               * effTimeStepMs config\<rparr>)"
      by (simp add: simulateBattle_def s0 simResult_def)
  }
  {
    fix s j h
    assume "bd_cooldownMs (deriveBattleStats s) = of_nat j * effTimeStepMs config"
    then have "stepsPerAttack s (effTimeStepMs config) = j"
      using dt by (simp add: stepsPerAttack_def)
    then show "of_nat (h * stepsPerAttack s (effTimeStepMs config) + 1) * effTimeStepMs config
        = of_nat h * bd_cooldownMs (deriveBattleStats s) + effTimeStepMs config"
      using \<open>bd_cooldownMs (deriveBattleStats s) = of_nat j * effTimeStepMs config\<close>
      by (simp add: algebra_simps)
  }
qed

text \<open>
  The duel of the counterexample: the Dwarf needs 3 hits, 9 steps apart, and the Warrior 40;
  the Warrior dies in turn 27, and the resolver reports \<open>28 * 50 = 3 * 450 + 50 = 1400\<close>.
\<close>

theorem duel_duration_witness:
  "unitCombatStats (attackerType (duel (Regular WARRIOR) (Regular DWARF) 0 60000 50)) =
     Some (melee 8 6 25 2)
   \<and> unitCombatStats (defenderType (duel (Regular WARRIOR) (Regular DWARF) 0 60000 50)) =
     Some (melee 12 20 40 1)
   \<and> effAttackerCount (duel (Regular WARRIOR) (Regular DWARF) 0 60000 50) = 1
   \<and> effDefenderCount (duel (Regular WARRIOR) (Regular DWARF) 0 60000 50) = 1
   \<and> effStartDistance (duel (Regular WARRIOR) (Regular DWARF) 0 60000 50) = 0
   \<and> effTimeStepMs (duel (Regular WARRIOR) (Regular DWARF) 0 60000 50) \<in> \<nat>
   \<and> 0 < effTimeStepMs (duel (Regular WARRIOR) (Regular DWARF) 0 60000 50)
   \<and> effMaxDurationMs (duel (Regular WARRIOR) (Regular DWARF) 0 60000 50)
       + effTimeStepMs (duel (Regular WARRIOR) (Regular DWARF) 0 60000 50) < 2 ^ 53
   \<and> killTurn (melee 12 20 40 1) (melee 8 6 25 2) 50 = 27
   \<and> killTurn (melee 8 6 25 2) (melee 12 20 40 1) 50 = 360
   \<and> simulateBattle (duel (Regular WARRIOR) (Regular DWARF) 0 60000 50) =
     Some (Inr \<lparr>winner = Won Defender, remaining_attacker = 0, remaining_defender = 1,
                durationMs = 1400\<rparr>)
   \<and> bd_cooldownMs (deriveBattleStats (melee 12 20 40 1)) = of_nat 9 * 50
   \<and> of_nat (3 * stepsPerAttack (melee 12 20 40 1) 50 + 1) * (50 :: number) =
       of_nat 3 * bd_cooldownMs (deriveBattleStats (melee 12 20 40 1)) + 50"
proof -
  let ?c = "duel (Regular WARRIOR) (Regular DWARF) 0 60000 50"
  have sa: "unitCombatStats (attackerType ?c) = Some (melee 8 6 25 2)"
    and sd: "unitCombatStats (defenderType ?c) = Some (melee 12 20 40 1)"
    by (simp_all add: duel_def)
  have cfg: "effAttackerCount ?c = 1" "effDefenderCount ?c = 1" "effStartDistance ?c = 0"
    "effTimeStepMs ?c \<in> \<nat>" "0 < effTimeStepMs ?c"
    "effMaxDurationMs ?c + effTimeStepMs ?c < 2 ^ 53"
    "effTimeStepMs ?c = 50" "effMaxDurationMs ?c = 60000"
    by (simp_all add: duel_def effAttackerCount_def effDefenderCount_def effStartDistance_def
        effTimeStepMs_def effMaxDurationMs_def)
  have k: "killTurn (melee 12 20 40 1) (melee 8 6 25 2) 50 = 27"
    "killTurn (melee 8 6 25 2) (melee 12 20 40 1) 50 = 360"
    "requiredHits (melee 12 20 40 1) (melee 8 6 25 2) = 3"
    "stepsPerAttack (melee 12 20 40 1) 50 = 9"
    by code_simp+
  note duration = duel_duration [OF sa sd cfg(1,2,3,4,5,6)]
  have val: "simulateBattle ?c =
     Some (Inr \<lparr>winner = Won Defender, remaining_attacker = 0, remaining_defender = 1,
                durationMs = 1400\<rparr>)"
    using duration k by (simp add: cfg(7,8))
  have cool: "bd_cooldownMs (deriveBattleStats (melee 12 20 40 1)) = of_nat 9 * 50"
    by (simp add: deriveBattleStats_def melee_def MELEE_COOLDOWN_MS_def Let_def)
  have "\<forall>s \<in> {melee 8 6 25 2, melee 12 20 40 1}. \<forall>j.
      bd_cooldownMs (deriveBattleStats s) = of_nat j * 50
      \<longrightarrow> (\<forall>h. of_nat (h * stepsPerAttack s 50 + 1) * (50 :: number)
             = of_nat h * bd_cooldownMs (deriveBattleStats s) + 50)"
    using duration unfolding cfg(7) by (elim conjE)
  then have "of_nat (3 * stepsPerAttack (melee 12 20 40 1) 50 + 1) * (50 :: number) =
       of_nat 3 * bd_cooldownMs (deriveBattleStats (melee 12 20 40 1)) + 50"
    using cool by blast
  with val cool show ?thesis
    using sa sd k cfg(1,2,3,4,5,6) by simp
qed

end
